theory Spec2Isabelle
  imports Complex_Main
begin

section \<open>JavaScript strings\<close>

text \<open>
  A JavaScript string is modelled as a list of 8-bit characters, so the model is exact on
  ASCII text. \<open>trim\<close> and the regular expression class \<open>\s\<close> remove the ASCII white
  space characters (tab, line feed, vertical tab, form feed, carriage return, space).
\<close>

abbreviation dq :: char where
  "dq \<equiv> CHR 0x22"

abbreviation sq :: char where
  "sq \<equiv> CHR 0x27"

definition isSpace :: "char \<Rightarrow> bool" where
  "isSpace c = (c = CHR 0x09 \<or> c = CHR 0x0A \<or> c = CHR 0x0B \<or> c = CHR 0x0C \<or> c = CHR 0x0D \<or> c = CHR '' '')"

definition trim :: "string \<Rightarrow> string" where
  "trim s = rev (dropWhile isSpace (rev (dropWhile isSpace s)))"

text \<open>\<open>s.split(sep)\<close> for a one-character separator: never empty, one more piece than
  there are separators.\<close>

fun split :: "char \<Rightarrow> string \<Rightarrow> string list" where
  "split sep [] = [[]]"
| "split sep (c # cs) =
     (if c = sep then [] # split sep cs
      else (case split sep cs of [] \<Rightarrow> [[c]] | p # ps \<Rightarrow> (c # p) # ps))"

section \<open>CSVParser.parseCSVLine\<close>

text \<open>
  The \<open>while (i < line.length)\<close> loop of \<open>parseCSVLine\<close>, as a recursion on the characters
  from position \<open>i\<close> on. The loop's variables \<open>inQuotes\<close>, \<open>current\<close> and \<open>result\<close> are
  arguments; \<open>nextChar\<close> is the head of the remaining characters (\<open>undefined\<close> at the end
  of the line, which is not a quote). An escaped quote advances by two characters.
\<close>

fun scanLine :: "bool \<Rightarrow> string \<Rightarrow> string list \<Rightarrow> string \<Rightarrow> string list" where
  "scanLine inQuotes current result [] = result @ [trim current]"
| "scanLine inQuotes current result (c # rest) =
     (if c = dq then
        (case rest of
           [] \<Rightarrow> scanLine (\<not> inQuotes) current result rest
         | nextChar # rest' \<Rightarrow>
             if inQuotes \<and> nextChar = dq then scanLine inQuotes (current @ [dq]) result rest'
             else scanLine (\<not> inQuotes) current result rest)
      else if c = CHR '','' \<and> \<not> inQuotes then scanLine inQuotes [] (result @ [trim current]) rest
      else scanLine inQuotes (current @ [c]) result rest)"

definition parseCSVLine :: "string \<Rightarrow> string list" where
  "parseCSVLine line = scanLine False [] [] line"

text \<open>
  The variables \<open>inQuotes\<close>, \<open>current\<close> and \<open>result\<close> of the same loop when it ends, before the
  last \<open>result.push(current.trim())\<close>. A line has an unterminated quote when \<open>inQuotes\<close> is
  still set there.
\<close>

fun scanState :: "bool \<Rightarrow> string \<Rightarrow> string list \<Rightarrow> string \<Rightarrow> bool \<times> string \<times> string list" where
  "scanState inQuotes current result [] = (inQuotes, current, result)"
| "scanState inQuotes current result (c # rest) =
     (if c = dq then
        (case rest of
           [] \<Rightarrow> scanState (\<not> inQuotes) current result rest
         | nextChar # rest' \<Rightarrow>
             if inQuotes \<and> nextChar = dq then scanState inQuotes (current @ [dq]) result rest'
             else scanState (\<not> inQuotes) current result rest)
      else if c = CHR '','' \<and> \<not> inQuotes then scanState inQuotes [] (result @ [trim current]) rest
      else scanState inQuotes (current @ [c]) result rest)"

text \<open>
  Text in which no quote closes a quoted field: its quotes come in pairs, each pair standing
  for one quote character. \<open>unescape\<close> is that text with each pair replaced by the one quote.
\<close>

fun quotedText :: "string \<Rightarrow> bool" where
  "quotedText [] = True"
| "quotedText [c] = (c \<noteq> dq)"
| "quotedText (c # n # rest) = (if c = dq then n = dq \<and> quotedText rest else quotedText (n # rest))"

fun unescape :: "string \<Rightarrow> string" where
  "unescape (c # n # rest) = (if c = dq \<and> n = dq then dq # unescape rest else c # unescape (n # rest))"
| "unescape cs = cs"

text \<open>Decimal rendering of a natural number, as a template literal renders a length or a
  row number.\<close>

definition digitChar :: "nat \<Rightarrow> char" where
  "digitChar d = ''0123456789'' ! d"

function showNat :: "nat \<Rightarrow> string" where
  "showNat n = (if n < 10 then [digitChar n] else showNat (n div 10) @ [digitChar (n mod 10)])"
  by pat_completeness auto
termination
  by (relation "measure id") auto

declare showNat.simps [simp del]

section \<open>JavaScript values and exceptions\<close>

text \<open>
  The values a row cell can hold. Numbers are exact rationals: the rounding of doubles,
  overflow and \<open>Infinity\<close> are outside the model, and \<open>NaN\<close> never reaches a cell
  (\<open>cleanBudget\<close> replaces it by \<open>undefined\<close>). The two objects are the function \<open>Object\<close> and
  \<open>Object.prototype\<close>: what \<open>mapping['constructor']\<close> and \<open>mapping['__proto__']\<close> give on an
  object literal.
\<close>

datatype jsval = VStr string | VNum rat | VArr "string list" | VNull | VUndefined
  | VObjectConstructor | VObjectPrototype

text \<open>A thrown value: an \<open>Error\<close> instance with its message, or anything else.\<close>

datatype exn = Error string | Thrown

text \<open>A row object: \<open>row k = None\<close> when the object has no property \<open>k\<close>.\<close>

type_synonym row = "string \<Rightarrow> jsval option"

definition get :: "row \<Rightarrow> string \<Rightarrow> jsval" where
  "get r k = (case r k of None \<Rightarrow> VUndefined | Some v \<Rightarrow> v)"

fun truthy :: "jsval \<Rightarrow> bool" where
  "truthy (VStr s) = (s \<noteq> [])"
| "truthy (VNum n) = (n \<noteq> 0)"
| "truthy (VArr xs) = True"
| "truthy VNull = False"
| "truthy VUndefined = False"
| "truthy VObjectConstructor = True"
| "truthy VObjectPrototype = True"

text \<open>
  Library functions whose results are not computed here are parameters of the model:
  \<^item> \<open>JSON_parse_array s\<close>: when \<open>JSON.parse(s)\<close> returns an array, the images of its elements
    under \<open>String\<close>; \<open>None\<close> when it throws or returns something else;
  \<^item> \<open>Number_toString n\<close>: the text a template literal gives for the number \<open>n\<close>;
  \<^item> \<open>String_toNumber s\<close>: \<open>Number(s)\<close>, \<open>None\<close> for \<open>NaN\<close>;
  \<^item> \<open>zod_email s\<close>: whether zod's \<open>email()\<close> check accepts \<open>s\<close>;
  \<^item> \<open>JSON_stringify v\<close>: \<open>JSON.stringify(v)\<close>.
\<close>

record builtins =
  JSON_parse_array :: "string \<Rightarrow> string list option"
  Number_toString :: "rat \<Rightarrow> string"
  String_toNumber :: "string \<Rightarrow> rat option"
  zod_email :: "string \<Rightarrow> bool"
  JSON_stringify :: "jsval \<Rightarrow> string"

definition isDigit :: "char \<Rightarrow> bool" where
  "isDigit c = (c \<in> set ''0123456789'')"

definition toLowerChar :: "char \<Rightarrow> char" where
  "toLowerChar c =
     (case map_of (zip ''ABCDEFGHIJKLMNOPQRSTUVWXYZ'' ''abcdefghijklmnopqrstuvwxyz'') c of
        None \<Rightarrow> c | Some l \<Rightarrow> l)"

definition toLowerCase :: "string \<Rightarrow> string" where
  "toLowerCase s = map toLowerChar s"

text \<open>\<open>s.includes(k)\<close>: \<open>k\<close> occurs in \<open>s\<close> as a contiguous piece.\<close>

fun strIncludes :: "string \<Rightarrow> string \<Rightarrow> bool" where
  "strIncludes [] k = (k = [])"
| "strIncludes (c # cs) k = (take (length k) (c # cs) = k \<or> strIncludes cs k)"

definition join :: "string \<Rightarrow> string list \<Rightarrow> string" where
  "join sep xs = (case xs of [] \<Rightarrow> [] | y # ys \<Rightarrow> y @ concat (map ((@) sep) ys))"

section \<open>CSVParser\<close>

record parse_error =
  pe_row :: nat
  pe_message :: string
  pe_rawData :: "string option"

record CSVParseResult =
  pr_data :: "row list"
  pr_errors :: "parse_error list"

text \<open>\<open>content.trim().split('\\n').filter(line => line.trim())\<close>\<close>

definition nonBlankLines :: "string \<Rightarrow> string list" where
  "nonBlankLines content = filter (\<lambda>line. trim line \<noteq> []) (split (CHR 0x0A) (trim content))"

text \<open>\<open>validateCSVFormat\<close> returns the error message, or \<open>None\<close> for \<open>{ isValid: true }\<close>. The
  loop checks \<open>lines[1] .. lines[min(lines.length, 6) - 1]\<close>.\<close>

definition validateCSVFormat :: "string \<Rightarrow> string option" where
  "validateCSVFormat content =
     (if content = [] \<or> length (trim content) = 0 then Some ''CSV file is empty''
      else let lines = nonBlankLines content in
        if length lines < 2 then Some ''CSV must have at least a header row and one data row''
        else let firstLine = trim (hd lines) in
          if CHR '','' \<notin> set firstLine then Some ''CSV must be comma-separated''
          else let headerColumns = length (parseCSVLine firstLine);
                   inconsistentRows =
                     filter (\<lambda>l. length (parseCSVLine l) \<noteq> headerColumns) (take 5 (tl lines))
               in if length inconsistentRows > 0
                  then Some (''Column count mismatch detected. Header has '' @ showNat headerColumns @
                    '' columns, but some rows have different counts. This often indicates missing values or trailing commas.'')
                  else None)"

text \<open>The column-count repair of one data row: the repaired values and the diagnostic. The
  messages read \<open>values.length\<close> after the repair, as the source does.\<close>

definition fixColumns :: "nat \<Rightarrow> string \<Rightarrow> nat \<Rightarrow> string list \<Rightarrow> string list \<times> parse_error list" where
  "fixColumns i line expectedColumns values =
     (if length values \<noteq> expectedColumns then
        if length values + 1 = expectedColumns then
          (let values' = values @ [''New''] in
           (values', [\<lparr>pe_row = i + 1,
              pe_message = ''Row had '' @ showNat (length values') @ '' columns, expected '' @
                showNat expectedColumns @ ''. Added default status '' @ [sq] @ ''New'' @ [sq] @ ''.'',
              pe_rawData = Some line\<rparr>]))
        else if length values > expectedColumns then
          (let values' = take expectedColumns values in
           (values', [\<lparr>pe_row = i + 1,
              pe_message = ''Row had '' @ showNat (length values') @ '' columns, expected '' @
                showNat expectedColumns @ ''. Extra columns removed.'',
              pe_rawData = Some line\<rparr>]))
        else
          (let values' = values @ replicate (expectedColumns - length values) [] in
           (values', [\<lparr>pe_row = i + 1,
              pe_message = ''Row had '' @ showNat (length values') @ '' columns, expected '' @
                showNat expectedColumns @ ''. Missing columns filled with empty values.'',
              pe_rawData = Some line\<rparr>]))
      else (values, []))"

text \<open>\<open>headers.forEach((header, index) => row[header] = (values[index] || '').trim())\<close>: a
  later column of the same name overwrites an earlier one.\<close>

fun makeRow :: "string list \<Rightarrow> string list \<Rightarrow> row \<Rightarrow> row" where
  "makeRow [] values r = r"
| "makeRow (header # headers) values r =
     makeRow headers (tl values) (r(header \<mapsto> VStr (trim (case values of [] \<Rightarrow> [] | v # _ \<Rightarrow> v))))"

text \<open>The loop \<open>for (let i = 1; i < lines.length; i++)\<close> of \<open>parseCSV\<close>, on the lines from
  index \<open>i\<close> on. Nothing in its body can throw on strings, so its \<open>catch\<close> has no branch here.\<close>

fun parseRows :: "string list \<Rightarrow> nat \<Rightarrow> string list \<Rightarrow> CSVParseResult \<Rightarrow> CSVParseResult" where
  "parseRows headers i [] result = result"
| "parseRows headers i (l # ls) result =
     (let line = trim l in
      if line = [] then parseRows headers (i + 1) ls result
      else
        let (values, diags) = fixColumns i line (length headers) (parseCSVLine line) in
        parseRows headers (i + 1) ls
          (result\<lparr>pr_data := pr_data result @ [makeRow headers values Map.empty],
                  pr_errors := pr_errors result @ diags\<rparr>))"

definition parseCSV :: "string \<Rightarrow> CSVParseResult" where
  "parseCSV content =
     (let result = \<lparr>pr_data = [], pr_errors = []\<rparr> in
      case validateCSVFormat content of
        Some err \<Rightarrow> result\<lparr>pr_errors := [\<lparr>pe_row = 0, pe_message = err, pe_rawData = None\<rparr>]\<rparr>
      | None \<Rightarrow>
          let lines = nonBlankLines content;
              headers = map trim (parseCSVLine (hd lines))
          in parseRows headers 1 (tl lines) result)"

text \<open>\<open>validateRequiredHeaders\<close>: \<open>(isValid, missingHeaders)\<close>.\<close>

definition validateRequiredHeaders :: "row list \<Rightarrow> string list \<Rightarrow> bool \<times> string list" where
  "validateRequiredHeaders rows requiredHeaders =
     (case rows of
        [] \<Rightarrow> (False, requiredHeaders)
      | first # _ \<Rightarrow>
          let missingHeaders = filter (\<lambda>header. first header = None) requiredHeaders
          in (missingHeaders = [], missingHeaders))"

section \<open>EnumMappings\<close>

datatype enum_field = City | PropertyType | Bhk | Purpose | Timeline | Source | Status

fun fieldName :: "enum_field \<Rightarrow> string" where
  "fieldName City = ''city''"
| "fieldName PropertyType = ''propertyType''"
| "fieldName Bhk = ''bhk''"
| "fieldName Purpose = ''purpose''"
| "fieldName Timeline = ''timeline''"
| "fieldName Source = ''source''"
| "fieldName Status = ''status''"

text \<open>
  Each table lists its keys in the order of \<open>Object.keys\<close>: the order of the object literal,
  but for \<open>bhk\<close>, whose integer keys \<open>'0'\<close> .. \<open>'4'\<close> come first, in ascending order.
\<close>

fun EnumMappings :: "enum_field \<Rightarrow> (string \<times> string) list" where
  "EnumMappings City =
     [(''chandigarh'', ''Chandigarh''), (''mohali'', ''Mohali''), (''zirakpur'', ''Zirakpur''),
      (''panchkula'', ''Panchkula''), (''other'', ''Other''), (''chd'', ''Chandigarh''),
      (''chandi'', ''Chandigarh''), (''pkula'', ''Panchkula''), (''panchula'', ''Panchkula'')]"
| "EnumMappings PropertyType =
     [(''apartment'', ''Apartment''), (''villa'', ''Villa''), (''plot'', ''Plot''),
      (''office'', ''Office''), (''retail'', ''Retail''), (''apt'', ''Apartment''),
      (''flat'', ''Apartment''), (''house'', ''Villa''), (''bungalow'', ''Villa''),
      (''shop'', ''Retail''), (''commercial'', ''Office'')]"
| "EnumMappings Bhk =
     [(''0'', ''Studio''), (''1'', ''One''), (''2'', ''Two''), (''3'', ''Three''), (''4'', ''Four''),
      (''studio'', ''Studio''), (''one'', ''One''), (''two'', ''Two''), (''three'', ''Three''),
      (''four'', ''Four''), (''1bhk'', ''One''), (''2bhk'', ''Two''), (''3bhk'', ''Three''),
      (''4bhk'', ''Four'')]"
| "EnumMappings Purpose =
     [(''buy'', ''Buy''), (''rent'', ''Rent''), (''purchase'', ''Buy''), (''sale'', ''Buy''),
      (''rental'', ''Rent''), (''lease'', ''Rent'')]"
| "EnumMappings Timeline =
     [(''zerotothree'', ''ZeroToThree''), (''threetosix'', ''ThreeToSix''),
      (''morethansix'', ''MoreThanSix''), (''exploring'', ''Exploring''), (''0-3'', ''ZeroToThree''),
      (''3-6'', ''ThreeToSix''), (''6+'', ''MoreThanSix''), (''immediate'', ''ZeroToThree''),
      (''asap'', ''ZeroToThree''), (''flexible'', ''Exploring''), (''later'', ''MoreThanSix'')]"
| "EnumMappings Source =
     [(''website'', ''Website''), (''referral'', ''Referral''), (''walkin'', ''WalkIn''),
      (''call'', ''Call''), (''other'', ''Other''), (''web'', ''Website''), (''online'', ''Website''),
      (''reference'', ''Referral''), (''phone'', ''Call''), (''telephone'', ''Call''),
      (''walk-in'', ''WalkIn''), (''visit'', ''WalkIn'')]"
| "EnumMappings Status =
     [(''new'', ''New''), (''qualified'', ''Qualified''), (''contacted'', ''Contacted''),
      (''visited'', ''Visited''), (''negotiation'', ''Negotiation''), (''converted'', ''Converted''),
      (''dropped'', ''Dropped''), (''fresh'', ''New''), (''lead'', ''New''),
      (''prospect'', ''Qualified''), (''called'', ''Contacted''), (''reached'', ''Contacted''),
      (''site-visit'', ''Visited''), (''viewing'', ''Visited''), (''deal'', ''Negotiation''),
      (''bargaining'', ''Negotiation''), (''closed'', ''Converted''), (''won'', ''Converted''),
      (''lost'', ''Dropped''), (''rejected'', ''Dropped'')]"

text \<open>
  \<open>mapping[key]\<close> on one of these object literals: an own property, else a property inherited
  from \<open>Object.prototype\<close>. The key was lower-cased, so of the inherited names only
  \<open>constructor\<close> and \<open>__proto__\<close> can be asked for.
\<close>

definition property :: "(string \<times> string) list \<Rightarrow> string \<Rightarrow> jsval" where
  "property mapping key =
     (case map_of mapping key of
        Some v \<Rightarrow> VStr v
      | None \<Rightarrow>
          if key = ''constructor'' then VObjectConstructor
          else if key = ''__proto__'' then VObjectPrototype
          else VUndefined)"

section \<open>CSVDataCleaner\<close>

text \<open>
  The cleaning functions are declared on strings and called on whatever a cell holds. A call
  of a string method on a value that has none is the \<open>TypeError\<close> the engine throws.
\<close>

definition cleanPhoneNumber :: "jsval \<Rightarrow> exn + string" where
  "cleanPhoneNumber phone =
     (if \<not> truthy phone then Inr []
      else case phone of
        VStr s \<Rightarrow>
          (let cleaned = filter isDigit s in
           if take 2 cleaned = ''91'' \<and> length cleaned = 12 then Inr (drop 2 cleaned)
           else Inr cleaned)
      | _ \<Rightarrow> Inl (Error ''phone.replace is not a function''))"

definition cleanEmail :: "jsval \<Rightarrow> exn + string" where
  "cleanEmail email =
     (if \<not> truthy email then Inr []
      else case email of
        VStr s \<Rightarrow> Inr (trim (toLowerCase s))
      | _ \<Rightarrow> Inl (Error ''email.toLowerCase is not a function''))"

text \<open>The rupee sign, as the three bytes of its UTF-8 encoding.\<close>

fun removeRupee :: "string \<Rightarrow> string" where
  "removeRupee (a # b # c # cs) =
     (if [a, b, c] = [CHR 0xE2, CHR 0x82, CHR 0xB9] then removeRupee cs
      else a # removeRupee (b # c # cs))"
| "removeRupee cs = cs"

text \<open>\<open>s.replace(/cr/gi, '')\<close>\<close>

fun removeCr :: "string \<Rightarrow> string" where
  "removeCr (a # b # cs) =
     (if toLowerCase [a, b] = ''cr'' then removeCr cs else a # removeCr (b # cs))"
| "removeCr cs = cs"

definition digitsValue :: "string \<Rightarrow> nat" where
  "digitsValue ds = foldl (\<lambda>acc c. 10 * acc + (of_char c - 48)) 0 ds"

text \<open>
  \<open>parseFloat\<close>: the longest prefix that is a decimal literal (sign, digits, fraction,
  exponent), after leading white space; \<open>None\<close> is \<open>NaN\<close>.
\<close>

definition parseFloat :: "string \<Rightarrow> rat option" where
  "parseFloat s =
     (let s1 = dropWhile isSpace s;
          neg = (take 1 s1 = ''-'');
          s2 = (if take 1 s1 = ''-'' \<or> take 1 s1 = ''+'' then drop 1 s1 else s1);
          ip = takeWhile isDigit s2;
          r1 = dropWhile isDigit s2;
          fp = (if take 1 r1 = ''.'' then takeWhile isDigit (drop 1 r1) else []);
          r2 = (if take 1 r1 = ''.'' then dropWhile isDigit (drop 1 r1) else r1);
          hasExp = (take 1 r2 = ''e'' \<or> take 1 r2 = ''E'');
          r3 = drop 1 r2;
          eneg = (take 1 r3 = ''-'');
          r4 = (if take 1 r3 = ''-'' \<or> take 1 r3 = ''+'' then drop 1 r3 else r3);
          ed = takeWhile isDigit r4;
          mant = of_nat (digitsValue (ip @ fp)) / 10 ^ length fp;
          scaled =
            (if hasExp \<and> ed \<noteq> [] then
               (if eneg then mant / 10 ^ digitsValue ed else mant * 10 ^ digitsValue ed)
             else mant)
      in if ip = [] \<and> fp = [] then None else Some (if neg then - scaled else scaled))"

definition cleanBudget :: "jsval \<Rightarrow> exn + jsval" where
  "cleanBudget budget =
     (if \<not> truthy budget then Inr VUndefined
      else case budget of
        VStr s \<Rightarrow>
          if trim s = [] then Inr VUndefined
          else
            let cleaned = filter (\<lambda>c. c \<noteq> CHR '','' \<and> c \<noteq> CHR ''$'' \<and> \<not> isSpace c) (removeRupee s) in
            if strIncludes (toLowerCase cleaned) ''l'' then
              (case parseFloat (filter (\<lambda>c. toLowerChar c \<noteq> CHR ''l'') cleaned) of
                 None \<Rightarrow> Inr VUndefined
               | Some num \<Rightarrow> Inr (VNum (num * 100000)))
            else if strIncludes (toLowerCase cleaned) ''cr'' then
              (case parseFloat (removeCr cleaned) of
                 None \<Rightarrow> Inr VUndefined
               | Some num \<Rightarrow> Inr (VNum (num * 10000000)))
            else
              (case parseFloat cleaned of
                 None \<Rightarrow> Inr VUndefined
               | Some num \<Rightarrow> Inr (VNum num))
      | _ \<Rightarrow> Inl (Error ''budget.trim is not a function''))"

definition cleanTags :: "builtins \<Rightarrow> jsval \<Rightarrow> exn + string list" where
  "cleanTags J tags =
     (if \<not> truthy tags then Inr []
      else case tags of
        VStr s \<Rightarrow>
          if trim s = [] \<or> trim s = ''[]'' then Inr []
          else
            (case JSON_parse_array J s of
               Some parsed \<Rightarrow> Inr (filter (\<lambda>tag. tag \<noteq> []) (map trim parsed))
             | None \<Rightarrow>
                 Inr (filter (\<lambda>tag. tag \<noteq> [] \<and> tag \<noteq> ''[]'' \<and> tag \<noteq> ''null'' \<and> tag \<noteq> ''undefined'')
                        (map trim (split (CHR '','') s))))
      | _ \<Rightarrow> Inl (Error ''tags.trim is not a function''))"

definition mapEnumValue :: "enum_field \<Rightarrow> jsval \<Rightarrow> exn + jsval" where
  "mapEnumValue field val =
     (if \<not> truthy val then Inr VNull
      else case val of
        VStr s \<Rightarrow>
          if trim s = [] then Inr VNull
          else
            let cleanValue = trim (toLowerCase s);
                mapping = EnumMappings field
            in if truthy (property mapping cleanValue) then Inr (property mapping cleanValue)
               else
                 (case find (\<lambda>(key, v). strIncludes cleanValue key \<or> strIncludes key cleanValue) mapping of
                    Some (key, v) \<Rightarrow> Inr (VStr v)
                  | None \<Rightarrow> Inr VNull)
      | _ \<Rightarrow> Inl (Error ''value.trim is not a function''))"

text \<open>Sequencing of steps that may throw.\<close>

definition andThen :: "exn + 'a \<Rightarrow> ('a \<Rightarrow> exn + 'b) \<Rightarrow> exn + 'b" where
  "andThen m f = (case m of Inl e \<Rightarrow> Inl e | Inr x \<Rightarrow> f x)"

text \<open>The steps of \<open>cleanRowData\<close>, in the order of the source.\<close>

definition trimStrings :: "row \<Rightarrow> row" where
  "trimStrings r = (\<lambda>key. case r key of Some (VStr s) \<Rightarrow> Some (VStr (trim s)) | x \<Rightarrow> x)"

definition cleanPhoneStep :: "row \<Rightarrow> exn + row" where
  "cleanPhoneStep r =
     (if truthy (get r ''phone'')
      then andThen (cleanPhoneNumber (get r ''phone'')) (\<lambda>p. Inr (r(''phone'' \<mapsto> VStr p)))
      else Inr r)"

definition cleanEmailStep :: "row \<Rightarrow> exn + row" where
  "cleanEmailStep r =
     (if truthy (get r ''email'')
      then andThen (cleanEmail (get r ''email''))
             (\<lambda>e. Inr (r(''email'' \<mapsto> (if e = [] then VNull else VStr e))))
      else Inr r)"

definition cleanBudgetStep :: "string \<Rightarrow> row \<Rightarrow> exn + row" where
  "cleanBudgetStep key r =
     (if truthy (get r key)
      then andThen (cleanBudget (get r key)) (\<lambda>b. Inr (r(key \<mapsto> b)))
      else Inr r)"

definition cleanTagsStep :: "builtins \<Rightarrow> row \<Rightarrow> exn + row" where
  "cleanTagsStep J r =
     (if truthy (get r ''tags'')
      then andThen (cleanTags J (get r ''tags'')) (\<lambda>ts. Inr (r(''tags'' \<mapsto> VArr ts)))
      else Inr r)"

definition enumFields :: "enum_field list" where
  "enumFields = [City, PropertyType, Bhk, Purpose, Timeline, Source, Status]"

definition mapEnumStep :: "enum_field \<Rightarrow> row \<Rightarrow> exn + row" where
  "mapEnumStep field r =
     (if truthy (get r (fieldName field))
      then andThen (mapEnumValue field (get r (fieldName field)))
             (\<lambda>mapped. Inr (if truthy mapped then r(fieldName field \<mapsto> mapped) else r))
      else Inr r)"

fun mapEnumSteps :: "enum_field list \<Rightarrow> row \<Rightarrow> exn + row" where
  "mapEnumSteps [] r = Inr r"
| "mapEnumSteps (field # rest) r = andThen (mapEnumStep field r) (mapEnumSteps rest)"

definition emptyStrings :: "row \<Rightarrow> row" where
  "emptyStrings r =
     (\<lambda>key. case r key of
        Some (VStr []) \<Rightarrow>
          if key \<in> set [''email'', ''notes'', ''status''] then Some VNull
          else if key \<in> set [''budgetMin'', ''budgetMax''] then Some VUndefined
          else if key = ''bhk'' then
            (if get r ''propertyType'' \<in> set [VStr ''Plot'', VStr ''Office'', VStr ''Retail'']
             then Some VNull else Some (VStr []))
          else Some (VStr [])
      | x \<Rightarrow> x)"

definition cleanRowData :: "builtins \<Rightarrow> row \<Rightarrow> exn + row" where
  "cleanRowData J r =
     andThen (cleanPhoneStep (trimStrings r)) (\<lambda>r.
     andThen (cleanEmailStep r) (\<lambda>r.
     andThen (cleanBudgetStep ''budgetMin'' r) (\<lambda>r.
     andThen (cleanBudgetStep ''budgetMax'' r) (\<lambda>r.
     andThen (cleanTagsStep J r) (\<lambda>r.
     andThen (mapEnumSteps enumFields r) (\<lambda>r.
     Inr (emptyStrings r)))))))"

section \<open>CSVRowValidator\<close>

text \<open>The text of a value inside a template literal.\<close>

fun toStr :: "builtins \<Rightarrow> jsval \<Rightarrow> string" where
  "toStr J (VStr s) = s"
| "toStr J (VNum n) = Number_toString J n"
| "toStr J (VArr xs) = join '','' xs"
| "toStr J VNull = ''null''"
| "toStr J VUndefined = ''undefined''"
| "toStr J VObjectConstructor = ''function Object() { [native code] }''"
| "toStr J VObjectPrototype = ''[object Object]''"

text \<open>\<open>v.length\<close>, \<open>None\<close> when the property is \<open>undefined\<close>.\<close>

fun jsLength :: "jsval \<Rightarrow> nat option" where
  "jsLength (VStr s) = Some (length s)"
| "jsLength (VArr xs) = Some (length xs)"
| "jsLength VObjectConstructor = Some 1"
| "jsLength v = None"

text \<open>\<open>Number(v)\<close>, \<open>None\<close> for \<open>NaN\<close>.\<close>

fun toNumber :: "builtins \<Rightarrow> jsval \<Rightarrow> rat option" where
  "toNumber J (VStr s) = String_toNumber J s"
| "toNumber J (VNum n) = Some n"
| "toNumber J (VArr xs) = String_toNumber J (join '','' xs)"
| "toNumber J VNull = Some 0"
| "toNumber J VUndefined = None"
| "toNumber J VObjectConstructor = None"
| "toNumber J VObjectPrototype = None"

fun strLess :: "string \<Rightarrow> string \<Rightarrow> bool" where
  "strLess [] [] = False"
| "strLess [] (d # ds) = True"
| "strLess (c # cs) [] = False"
| "strLess (c # cs) (d # ds) =
     ((of_char c :: nat) < of_char d \<or> (c = d \<and> strLess cs ds))"

text \<open>
  The relational comparison \<open>a < b\<close>: two strings (or values whose primitive is a string)
  compare as strings, anything else as numbers; \<open>None\<close> is the \<open>undefined\<close> that a \<open>NaN\<close>
  operand gives, for which both \<open>a < b\<close> and \<open>a >= b\<close> are false.
\<close>

fun isStringLike :: "jsval \<Rightarrow> bool" where
  "isStringLike (VNum n) = False"
| "isStringLike VNull = False"
| "isStringLike VUndefined = False"
| "isStringLike v = True"

definition jsCompare :: "builtins \<Rightarrow> jsval \<Rightarrow> jsval \<Rightarrow> bool option" where
  "jsCompare J a b =
     (if isStringLike a \<and> isStringLike b then Some (strLess (toStr J a) (toStr J b))
      else case (toNumber J a, toNumber J b) of
             (Some m, Some n) \<Rightarrow> Some (m < n)
           | _ \<Rightarrow> None)"

definition jsLess :: "builtins \<Rightarrow> jsval \<Rightarrow> jsval \<Rightarrow> bool" where
  "jsLess J a b = (jsCompare J a b = Some True)"

definition jsGreaterEq :: "builtins \<Rightarrow> jsval \<Rightarrow> jsval \<Rightarrow> bool" where
  "jsGreaterEq J a b = (jsCompare J a b = Some False)"

record validation =
  isValid :: bool
  v_errors :: "string list"
  v_warnings :: "string list"

definition requiredFields :: "string list" where
  "requiredFields = [''fullName'', ''phone'', ''city'', ''propertyType'', ''purpose'', ''timeline'', ''source'']"

definition missingRequired :: "row \<Rightarrow> string \<Rightarrow> bool" where
  "missingRequired r field =
     (if truthy (get r field) then (case get r field of VStr s \<Rightarrow> trim s = [] | _ \<Rightarrow> False)
      else True)"

text \<open>\<open>/^[^\\s@]+@[^\\s@]+\\.[^\\s@]+$/.test(s)\<close>: no white space, one \<open>@\<close> with text before it, and
  after it a dot that is neither the first nor the last character.\<close>

definition emailRegexTest :: "string \<Rightarrow> bool" where
  "emailRegexTest s =
     (let localPart = takeWhile (\<lambda>c. c \<noteq> CHR ''@'') s;
          domainPart = drop (length localPart + 1) s
      in localPart \<noteq> [] \<and> length localPart < length s \<and> CHR ''@'' \<notin> set domainPart \<and>
         \<not> list_ex isSpace s \<and> CHR ''.'' \<in> set (butlast (tl domainPart)))"

fun validValues :: "enum_field \<Rightarrow> string list" where
  "validValues City = [''Chandigarh'', ''Mohali'', ''Zirakpur'', ''Panchkula'', ''Other'']"
| "validValues PropertyType = [''Apartment'', ''Villa'', ''Plot'', ''Office'', ''Retail'']"
| "validValues Bhk = [''Studio'', ''One'', ''Two'', ''Three'', ''Four'']"
| "validValues Purpose = [''Buy'', ''Rent'']"
| "validValues Timeline = [''ZeroToThree'', ''ThreeToSix'', ''MoreThanSix'', ''Exploring'']"
| "validValues Source = [''Website'', ''Referral'', ''WalkIn'', ''Call'', ''Other'']"
| "validValues Status = [''New'', ''Qualified'', ''Contacted'', ''Visited'', ''Negotiation'', ''Converted'', ''Dropped'']"

text \<open>The loop over \<open>enumValidations\<close>, with the lists \<open>errors\<close> and \<open>warnings\<close> it pushes to.\<close>

fun enumValidations ::
  "builtins \<Rightarrow> enum_field list \<Rightarrow> row \<Rightarrow> string list \<times> string list \<Rightarrow> exn + string list \<times> string list" where
  "enumValidations J [] r (errors, warnings) = Inr (errors, warnings)"
| "enumValidations J (field # rest) r (errors, warnings) =
     (let v = get r (fieldName field) in
      if truthy v \<and> v \<notin> VStr ` set (validValues field) then
        andThen (mapEnumValue field v) (\<lambda>suggestion.
          if truthy suggestion then
            enumValidations J rest r
              (errors,
               warnings @ [fieldName field @ '' '' @ [sq] @ toStr J v @ [sq] @ '' was mapped to '' @
                 [sq] @ toStr J suggestion @ [sq]])
          else
            enumValidations J rest r
              (errors @ [fieldName field @ '' must be one of: '' @ join '', '' (validValues field) @
                 '' (provided: '' @ toStr J v @ '')''],
               warnings))
      else enumValidations J rest r (errors, warnings))"

text \<open>
  \<open>validateRow\<close>, block by block. The state of a block is the lists \<open>errors\<close> and \<open>warnings\<close> and
  the row object; the assignment \<open>row.bhk = null\<close> of the BHK block is the one write to the row.
  \<open>validateRow\<close> returns its result and the row object as it leaves it.
\<close>

type_synonym vstate = "string list \<times> string list \<times> row"

definition checkRequired :: "vstate \<Rightarrow> vstate" where
  "checkRequired st =
     (case st of (errors, warnings, r) \<Rightarrow>
        (errors @ map (\<lambda>field. field @ '' is required'') (filter (missingRequired r) requiredFields),
         warnings, r))"

definition checkPhone :: "vstate \<Rightarrow> exn + vstate" where
  "checkPhone st =
     (case st of (errors, warnings, r) \<Rightarrow>
        if truthy (get r ''phone'') then
          andThen (cleanPhoneNumber (get r ''phone'')) (\<lambda>cleanPhone.
            Inr (if length cleanPhone < 10 \<or> length cleanPhone > 15
                 then errors @ [''phone must be 10-15 digits (provided: '' @ cleanPhone @ '')'']
                 else errors,
                 warnings, r))
        else Inr st)"

definition checkEmail :: "builtins \<Rightarrow> vstate \<Rightarrow> vstate" where
  "checkEmail J st =
     (case st of (errors, warnings, r) \<Rightarrow>
        if truthy (get r ''email'') \<and> \<not> emailRegexTest (toStr J (get r ''email''))
        then (errors @ [''email format is invalid (provided: '' @ toStr J (get r ''email'') @ '')''],
              warnings, r)
        else st)"

definition checkEnums :: "builtins \<Rightarrow> vstate \<Rightarrow> exn + vstate" where
  "checkEnums J st =
     (case st of (errors, warnings, r) \<Rightarrow>
        andThen (enumValidations J enumFields r (errors, warnings))
          (\<lambda>(errors, warnings). Inr (errors, warnings, r)))"

definition checkBhk :: "builtins \<Rightarrow> vstate \<Rightarrow> vstate" where
  "checkBhk J st =
     (case st of (errors, warnings, r) \<Rightarrow>
        let propertyType = get r ''propertyType''; bhk = get r ''bhk'' in
        if propertyType = VStr ''Apartment'' \<or> propertyType = VStr ''Villa'' then
          (if \<not> truthy bhk
           then (errors @ [''bhk is required for '' @ toStr J propertyType @ '' properties''], warnings, r)
           else st)
        else if propertyType = VStr ''Plot'' \<or> propertyType = VStr ''Office'' \<or> propertyType = VStr ''Retail'' then
          (if truthy bhk
           then (errors,
                 warnings @ [''bhk should be empty for '' @ toStr J propertyType @ '' properties, but '' @
                   [sq] @ toStr J bhk @ [sq] @ '' was provided''],
                 r(''bhk'' \<mapsto> VNull))
           else st)
        else st)"

definition checkBudget :: "builtins \<Rightarrow> vstate \<Rightarrow> vstate" where
  "checkBudget J st =
     (case st of (errors, warnings, r) \<Rightarrow>
        let budgetMin = get r ''budgetMin''; budgetMax = get r ''budgetMax'' in
        if truthy budgetMin \<and> truthy budgetMax \<and> jsLess J budgetMax budgetMin
        then (errors @ [''budgetMax ('' @ toStr J budgetMax @ '') must be greater than or equal to budgetMin ('' @
                toStr J budgetMin @ '')''],
              warnings, r)
        else st)"

definition checkNotes :: "vstate \<Rightarrow> vstate" where
  "checkNotes st =
     (case st of (errors, warnings, r) \<Rightarrow>
        case jsLength (get r ''notes'') of
          Some n \<Rightarrow>
            if truthy (get r ''notes'') \<and> n > 1000
            then (errors @ [''notes must be less than 1000 characters (provided: '' @ showNat n @ '')''],
                  warnings, r)
            else st
        | None \<Rightarrow> st)"

definition checkFullName :: "vstate \<Rightarrow> vstate" where
  "checkFullName st =
     (case st of (errors, warnings, r) \<Rightarrow>
        case jsLength (get r ''fullName'') of
          Some n \<Rightarrow>
            if truthy (get r ''fullName'') \<and> (n < 2 \<or> n > 80)
            then (errors @ [''fullName must be between 2 and 80 characters (provided: '' @ showNat n @ '')''],
                  warnings, r)
            else st
        | None \<Rightarrow> st)"

definition validateRow :: "builtins \<Rightarrow> row \<Rightarrow> exn + validation \<times> row" where
  "validateRow J r =
     andThen (checkPhone (checkRequired ([], [], r))) (\<lambda>st.
     andThen (checkEnums J (checkEmail J st)) (\<lambda>st.
     case checkFullName (checkNotes (checkBudget J (checkBhk J st))) of
       (errors, warnings, r') \<Rightarrow>
         Inr (\<lparr>isValid = (length errors = 0), v_errors = errors, v_warnings = warnings\<rparr>, r')))"

section \<open>csvRowSchema and validateCSVRow\<close>

text \<open>
  The zod schema, combinator by combinator. A schema maps a value to a status, the messages
  of the issues it raises and the parsed value. A failed type check aborts; a failed check or
  refinement leaves the value dirty. The messages are those of zod's default error map.
\<close>

datatype zstatus = ZValid | ZDirty | ZAborted

type_synonym zresult = "zstatus \<times> string list \<times> jsval"

type_synonym zschema = "jsval \<Rightarrow> zresult"

fun typeName :: "jsval \<Rightarrow> string" where
  "typeName (VStr s) = ''string''"
| "typeName (VNum n) = ''number''"
| "typeName (VArr xs) = ''array''"
| "typeName VNull = ''null''"
| "typeName VUndefined = ''undefined''"
| "typeName VObjectConstructor = ''function''"
| "typeName VObjectPrototype = ''object''"

definition zAbort :: "string \<Rightarrow> zresult" where
  "zAbort msg = (ZAborted, [msg], VUndefined)"

definition zChecked :: "string list \<Rightarrow> jsval \<Rightarrow> zresult" where
  "zChecked msgs v = (if msgs = [] then ZValid else ZDirty, msgs, v)"

definition invalidType :: "string \<Rightarrow> jsval \<Rightarrow> string" where
  "invalidType expected v =
     (if v = VUndefined then ''Required''
      else ''Expected '' @ expected @ '', received '' @ typeName v)"

definition joinValues :: "string list \<Rightarrow> string" where
  "joinValues vs = join '' | '' (map (\<lambda>v. [sq] @ v @ [sq]) vs)"

definition zEnum :: "string list \<Rightarrow> zschema" where
  "zEnum vs v =
     (case v of
        VStr s \<Rightarrow>
          if s \<in> set vs then (ZValid, [], v)
          else zAbort (''Invalid enum value. Expected '' @ joinValues vs @ '', received '' @ [sq] @ s @ [sq])
      | _ \<Rightarrow> zAbort (invalidType (joinValues vs) v))"

datatype string_check = Min nat | Max nat | Email

fun stringCheck :: "builtins \<Rightarrow> string_check \<Rightarrow> string \<Rightarrow> string list" where
  "stringCheck J (Min n) s =
     (if length s < n then [''String must contain at least '' @ showNat n @ '' character(s)''] else [])"
| "stringCheck J (Max n) s =
     (if length s > n then [''String must contain at most '' @ showNat n @ '' character(s)''] else [])"
| "stringCheck J Email s = (if zod_email J s then [] else [''Invalid email''])"

definition zString :: "builtins \<Rightarrow> string_check list \<Rightarrow> zschema" where
  "zString J checks v =
     (case v of
        VStr s \<Rightarrow> zChecked (concat (map (\<lambda>c. stringCheck J c s) checks)) v
      | _ \<Rightarrow> zAbort (invalidType ''string'' v))"

text \<open>\<open>z.coerce.number().int().min(0)\<close>\<close>

definition zCoerceIntMin0 :: "builtins \<Rightarrow> zschema" where
  "zCoerceIntMin0 J v =
     (case toNumber J v of
        None \<Rightarrow> zAbort ''Expected number, received nan''
      | Some n \<Rightarrow>
          zChecked
            ((if n \<noteq> of_int \<lfloor>n\<rfloor> then [''Expected integer, received float''] else []) @
             (if n < 0 then [''Number must be greater than or equal to 0''] else []))
            (VNum n))"

definition zArrayOfStrings :: zschema where
  "zArrayOfStrings v = (case v of VArr xs \<Rightarrow> (ZValid, [], v) | _ \<Rightarrow> zAbort (invalidType ''array'' v))"

definition zNull :: zschema where
  "zNull v = (if v = VNull then (ZValid, [], v) else zAbort (invalidType ''null'' v))"

text \<open>\<open>z.literal('')\<close>, and \<open>z.literal('').transform(() => null)\<close>\<close>

definition zLiteralEmpty :: zschema where
  "zLiteralEmpty v =
     (if v = VStr [] then (ZValid, [], v) else zAbort (''Invalid literal value, expected '' @ [dq, dq]))"

definition zLiteralEmptyToNull :: zschema where
  "zLiteralEmptyToNull v =
     (if v = VStr [] then (ZValid, [], VNull) else zAbort (''Invalid literal value, expected '' @ [dq, dq]))"

definition zOptional :: "zschema \<Rightarrow> zschema" where
  "zOptional inner v = (if v = VUndefined then (ZValid, [], VUndefined) else inner v)"

text \<open>\<open>a.or(b)\<close>: the first valid option; else the first dirty one, with its issues; else one
  \<open>invalid_union\<close> issue.\<close>

definition zOr :: "zschema \<Rightarrow> zschema \<Rightarrow> zschema" where
  "zOr a b v =
     (if fst (a v) = ZValid then a v
      else if fst (b v) = ZValid then b v
      else if fst (a v) = ZDirty then a v
      else if fst (b v) = ZDirty then b v
      else zAbort ''Invalid input'')"

text \<open>\<open>phoneSchema\<close>: a string, transformed by \<open>val.replace(/\\D/g, '')\<close>, then refined.\<close>

definition phoneSchema :: zschema where
  "phoneSchema v =
     (case v of
        VStr s \<Rightarrow>
          (let val = filter isDigit s in
           zChecked (if length val \<ge> 10 \<and> length val \<le> 15 then []
                     else [''Phone number must be 10-15 digits'']) (VStr val))
      | _ \<Rightarrow> zAbort (invalidType ''string'' v))"

text \<open>The shape of \<open>csvRowSchema\<close>, in the order of its keys.\<close>

definition csvRowShape :: "builtins \<Rightarrow> (string \<times> zschema) list" where
  "csvRowShape J =
     [(''fullName'', zString J [Min 2, Max 80]),
      (''email'', zOr (zOptional (zString J [Email])) zLiteralEmpty),
      (''phone'', phoneSchema),
      (''city'', zEnum (validValues City)),
      (''propertyType'', zEnum (validValues PropertyType)),
      (''bhk'', zOr (zOr (zOptional (zEnum (validValues Bhk))) zLiteralEmptyToNull) zNull),
      (''purpose'', zEnum (validValues Purpose)),
      (''budgetMin'', zOr (zOptional (zCoerceIntMin0 J)) zLiteralEmpty),
      (''budgetMax'', zOr (zOptional (zCoerceIntMin0 J)) zLiteralEmpty),
      (''timeline'', zEnum (validValues Timeline)),
      (''source'', zEnum (validValues Source)),
      (''notes'', zOr (zOptional (zString J [Max 1000])) zLiteralEmpty),
      (''tags'', zOr (zOptional zArrayOfStrings) zLiteralEmpty),
      (''status'', zOr (zOptional (zEnum (validValues Status))) zLiteralEmpty)]"

text \<open>
  \<open>z.object(shape)\<close> on a row: every key is parsed, its issues are recorded under its path,
  and the object is aborted when a key is, dirty when a key is dirty. The result holds the
  status, the issues as \<open>validateCSVRow\<close> prints them (\<open>path: message\<close>) and the parsed object.
\<close>

definition zObject :: "(string \<times> zschema) list \<Rightarrow> row \<Rightarrow> zstatus \<times> string list \<times> row" where
  "zObject shape r =
     (let parsed = map (\<lambda>(key, schema). (key, schema (get r key))) shape;
          statuses = map (\<lambda>(key, res). fst res) parsed
      in (if ZAborted \<in> set statuses then ZAborted
          else if ZDirty \<in> set statuses then ZDirty else ZValid,
          concat (map (\<lambda>(key, res). map (\<lambda>msg. key @ '': '' @ msg) (fst (snd res))) parsed),
          map_of (map (\<lambda>(key, res). (key, snd (snd res))) parsed)))"

text \<open>\<open>schema.refine(check, { message, path })\<close>: skipped when the object is aborted.\<close>

definition zRefine ::
  "(row \<Rightarrow> bool) \<Rightarrow> string \<Rightarrow> zstatus \<times> string list \<times> row \<Rightarrow> zstatus \<times> string list \<times> row" where
  "zRefine check issue res =
     (case res of (status, issues, data) \<Rightarrow>
        if status = ZAborted then res
        else if check data then res
        else (ZDirty, issues @ [issue], data))"

definition bhkRequirement :: "row \<Rightarrow> bool" where
  "bhkRequirement data =
     (if get data ''propertyType'' = VStr ''Apartment'' \<or> get data ''propertyType'' = VStr ''Villa''
      then get data ''bhk'' \<noteq> VUndefined \<and> get data ''bhk'' \<noteq> VNull
      else True)"

definition budgetOrder :: "builtins \<Rightarrow> row \<Rightarrow> bool" where
  "budgetOrder J data =
     (if truthy (get data ''budgetMin'') \<and> truthy (get data ''budgetMax'')
      then jsGreaterEq J (get data ''budgetMax'') (get data ''budgetMin'')
      else True)"

definition csvRowSchema :: "builtins \<Rightarrow> row \<Rightarrow> zstatus \<times> string list \<times> row" where
  "csvRowSchema J r =
     zRefine (budgetOrder J) ''budgetMax: Budget max must be greater than or equal to budget min''
       (zRefine bhkRequirement ''bhk: BHK is required for Apartment and Villa property types''
          (zObject (csvRowShape J) r))"

text \<open>\<open>validateCSVRow\<close>: \<open>(isValid, errors)\<close>. \<open>parse\<close> throws a \<open>ZodError\<close> unless the status is
  valid, and the \<open>catch\<close> prints its issues.\<close>

definition validateCSVRow :: "builtins \<Rightarrow> row \<Rightarrow> bool \<times> string list" where
  "validateCSVRow J r =
     (case csvRowSchema J r of (status, issues, data) \<Rightarrow>
        if status = ZValid then (True, []) else (False, issues))"

section \<open>CSVImportService\<close>

text \<open>What \<open>RowError.data\<close> holds: the raw line of a parser diagnostic, the raw row object, or
  nothing.\<close>

datatype error_data = NoData | RawLine string | RowObject row

record RowError =
  re_row :: nat
  re_errors :: "string list"
  re_data :: error_data

record ImportResult =
  success :: bool
  totalRows :: nat
  successfulImports :: nat
  failedImports :: nat
  errors :: "RowError list"
  warnings :: "string list"

text \<open>The uploaded file. \<open>buffer_toString\<close> is the outcome of \<open>file.buffer.toString('utf-8')\<close>: the
  text, or what the call throws (a file that was not kept in memory has no buffer).\<close>

record multer_file =
  f_size :: nat
  mimetype :: string
  originalname :: string
  buffer_toString :: "exn + string"

record FileValidationResult =
  fv_isValid :: bool
  fv_error :: "string option"
  fv_size :: "nat option"
  fv_type :: "string option"

definition MAX_FILE_SIZE :: nat where
  "MAX_FILE_SIZE = 5 * 1024 * 1024"

definition MAX_ROWS :: nat where
  "MAX_ROWS = 1000"

definition REQUIRED_HEADERS :: "string list" where
  "REQUIRED_HEADERS = [''fullName'', ''phone'', ''city'', ''propertyType'', ''purpose'', ''timeline'', ''source'']"

text \<open>\<open>validateFile\<close>; the file is \<open>None\<close> when the caller passes \<open>undefined\<close>.
  \<open>Math.round(size / 1024 / 1024)\<close> rounds halves up.\<close>

definition validateFile :: "multer_file option \<Rightarrow> FileValidationResult" where
  "validateFile file =
     (case file of
        None \<Rightarrow> \<lparr>fv_isValid = False, fv_error = Some ''No file provided'', fv_size = None, fv_type = None\<rparr>
      | Some f \<Rightarrow>
          if f_size f > MAX_FILE_SIZE then
            \<lparr>fv_isValid = False,
             fv_error = Some (''File size ('' @ showNat ((2 * f_size f + 1048576) div 2097152) @
               ''MB) exceeds maximum allowed size (5MB)''),
             fv_size = Some (f_size f), fv_type = None\<rparr>
          else
            let hasValidMimeType = (mimetype f \<in> set [''text/csv'', ''application/csv'', ''text/plain'']);
                name = toLowerCase (originalname f);
                hasValidExtension = (drop (length name - 4) name = ''.csv'')
            in if \<not> hasValidMimeType \<and> \<not> hasValidExtension then
                 \<lparr>fv_isValid = False,
                  fv_error = Some (''Invalid file type. Expected CSV file, got '' @ mimetype f),
                  fv_size = None, fv_type = Some (mimetype f)\<rparr>
               else if f_size f = 0 then
                 \<lparr>fv_isValid = False, fv_error = Some ''File is empty'', fv_size = None, fv_type = None\<rparr>
               else
                 \<lparr>fv_isValid = True, fv_error = None, fv_size = Some (f_size f), fv_type = Some (mimetype f)\<rparr>)"

definition errorMessage :: "string \<Rightarrow> exn \<Rightarrow> string" where
  "errorMessage unknown e = (case e of Error msg \<Rightarrow> msg | Thrown \<Rightarrow> unknown)"

definition pushError :: "RowError \<Rightarrow> ImportResult \<Rightarrow> ImportResult" where
  "pushError e result = result\<lparr>errors := errors result @ [e]\<rparr>"

text \<open>
  The body of the loop over the parsed rows, on the row at index \<open>i\<close>: the state is \<open>result\<close>
  and the list \<open>validRows\<close>. \<open>cleanRowData\<close> and \<open>validateRow\<close> are the calls of the \<open>try\<close> block
  that can throw, and they run before the block writes to \<open>result\<close>; the \<open>catch\<close> records the
  row as failed.
\<close>

definition processRow ::
  "builtins \<Rightarrow> string \<Rightarrow> nat \<Rightarrow> row \<Rightarrow> ImportResult \<times> row list \<Rightarrow> ImportResult \<times> row list" where
  "processRow J ownerId i r state =
     (case state of (result, validRows) \<Rightarrow>
      let rowNumber = i + 2 in
      case andThen (cleanRowData J r) (validateRow J) of
        Inl e \<Rightarrow>
          ((pushError \<lparr>re_row = rowNumber,
              re_errors = [''Row processing failed: '' @ errorMessage ''Unknown error'' e],
              re_data = RowObject r\<rparr> result)
             \<lparr>failedImports := failedImports result + 1\<rparr>,
           validRows)
      | Inr (enhancedValidation, cleanedRow) \<Rightarrow>
          let validation = validateCSVRow J cleanedRow;
              combinedErrors = v_errors enhancedValidation @ (if \<not> fst validation then snd validation else []);
              result = result\<lparr>warnings := warnings result @
                         map (\<lambda>w. ''Row '' @ showNat rowNumber @ '': '' @ w) (v_warnings enhancedValidation)\<rparr>
          in if isValid enhancedValidation \<and> fst validation then
               (result\<lparr>successfulImports := successfulImports result + 1\<rparr>,
                validRows @ [cleanedRow(''ownerId'' \<mapsto> VStr ownerId,
                   ''tags'' \<mapsto> VStr (JSON_stringify J
                      (if truthy (get cleanedRow ''tags'') then get cleanedRow ''tags'' else VArr [])))])
             else
               ((pushError \<lparr>re_row = rowNumber, re_errors = combinedErrors, re_data = RowObject r\<rparr> result)
                  \<lparr>failedImports := failedImports result + 1\<rparr>,
                validRows))"

fun processRows ::
  "builtins \<Rightarrow> string \<Rightarrow> nat \<Rightarrow> row list \<Rightarrow> ImportResult \<times> row list \<Rightarrow> ImportResult \<times> row list" where
  "processRows J ownerId i [] state = state"
| "processRows J ownerId i (r # rs) state = processRows J ownerId (i + 1) rs (processRow J ownerId i r state)"

text \<open>The bulk insert: \<open>createMany\<close> is the storage collaborator, which returns \<open>None\<close> or what it
  throws.\<close>

definition insertRows :: "(row list \<Rightarrow> exn option) \<Rightarrow> ImportResult \<times> row list \<Rightarrow> ImportResult" where
  "insertRows createMany state =
     (case state of (result, validRows) \<Rightarrow>
        if length validRows > 0 then
          (case createMany validRows of
             None \<Rightarrow> result
           | Some dbError \<Rightarrow>
               (pushError \<lparr>re_row = 0,
                  re_errors = [''Database import failed: '' @ errorMessage ''Unknown database error'' dbError],
                  re_data = NoData\<rparr> result)
                 \<lparr>successfulImports := 0, failedImports := totalRows result\<rparr>)
        else result)"

text \<open>
  The part of \<open>importBuyersFromCSV\<close> after \<open>parseCSV\<close> has returned, in two steps. \<open>stageParsed\<close> runs
  up to the end of the loop: \<open>Inl\<close> is the result of an early \<open>return\<close>, \<open>Inr\<close> holds \<open>result\<close> and
  \<open>validRows\<close>. \<open>importParsed\<close> then inserts the staged rows and sets \<open>success\<close>.
\<close>

definition parserErrors :: "CSVParseResult \<Rightarrow> RowError list" where
  "parserErrors parseResult =
     map (\<lambda>e. \<lparr>re_row = pe_row e, re_errors = [pe_message e],
                 re_data = (case pe_rawData e of None \<Rightarrow> NoData | Some l \<Rightarrow> RawLine l)\<rparr>)
       (pr_errors parseResult)"

definition capWarning :: "nat \<Rightarrow> string" where
  "capWarning n =
     ''CSV contains '' @ showNat n @ '' rows. Only first '' @ showNat MAX_ROWS @ '' rows will be processed.''"

definition stageParsed ::
  "builtins \<Rightarrow> string \<Rightarrow> CSVParseResult \<Rightarrow> ImportResult \<Rightarrow> ImportResult + ImportResult \<times> row list" where
  "stageParsed J ownerId parseResult result =
     (let result = result\<lparr>errors := errors result @ parserErrors parseResult\<rparr> in
      if length (pr_data parseResult) = 0 then
        Inl (pushError \<lparr>re_row = 0, re_errors = [''No valid data rows found in CSV''], re_data = NoData\<rparr> result)
      else
        let capped = (length (pr_data parseResult) > MAX_ROWS);
            result =
              (if capped
               then result\<lparr>warnings := warnings result @ [capWarning (length (pr_data parseResult))]\<rparr>
               else result);
            rows = (if capped then take MAX_ROWS (pr_data parseResult) else pr_data parseResult);
            result = result\<lparr>totalRows := length rows\<rparr>;
            headerValidation = validateRequiredHeaders rows REQUIRED_HEADERS
        in
        if \<not> fst headerValidation then
          Inl (pushError \<lparr>re_row = 0,
                 re_errors = [''Missing required headers: '' @ join '', '' (snd headerValidation)],
                 re_data = NoData\<rparr> result)
        else Inr (processRows J ownerId 0 rows (result, [])))"

definition importParsed ::
  "builtins \<Rightarrow> (row list \<Rightarrow> exn option) \<Rightarrow> string \<Rightarrow> CSVParseResult \<Rightarrow> ImportResult \<Rightarrow> ImportResult" where
  "importParsed J createMany ownerId parseResult result =
     (case stageParsed J ownerId parseResult result of
        Inl result \<Rightarrow> result
      | Inr staged \<Rightarrow>
          let result = insertRows createMany staged
          in result\<lparr>success := successfulImports result > 0\<rparr>)"

text \<open>
  \<open>importBuyersFromCSV\<close>. The promise it returns settles to \<open>Inr\<close> of the result, or is rejected
  with \<open>Inl\<close> of an exception. The body of the outer \<open>try\<close> gives the result, or the exception it
  throws with \<open>result\<close> as it stood; the \<open>catch\<close> adds a row-0 error to that.
\<close>

definition initialResult :: ImportResult where
  "initialResult =
     \<lparr>success = False, totalRows = 0, successfulImports = 0, failedImports = 0, errors = [], warnings = []\<rparr>"

definition importBody ::
  "builtins \<Rightarrow> (row list \<Rightarrow> exn option) \<Rightarrow> multer_file option \<Rightarrow> string \<Rightarrow> ImportResult \<Rightarrow>
   exn \<times> ImportResult + ImportResult" where
  "importBody J createMany file ownerId result =
     (let fileValidation = validateFile file in
      if \<not> fv_isValid fileValidation then
        Inr (pushError \<lparr>re_row = 0,
               re_errors = [case fv_error fileValidation of Some msg \<Rightarrow> msg | None \<Rightarrow> ''File validation failed''],
               re_data = NoData\<rparr> result)
      else
        case file of
          None \<Rightarrow> Inl (Error ''Cannot read properties of undefined (reading buffer)'', result)
        | Some f \<Rightarrow>
            (case buffer_toString f of
               Inl e \<Rightarrow> Inl (e, result)
             | Inr csvContent \<Rightarrow> Inr (importParsed J createMany ownerId (parseCSV csvContent) result)))"

definition importBuyersFromCSV ::
  "builtins \<Rightarrow> (row list \<Rightarrow> exn option) \<Rightarrow> multer_file option \<Rightarrow> string \<Rightarrow> exn + ImportResult" where
  "importBuyersFromCSV J createMany file ownerId =
     (case importBody J createMany file ownerId initialResult of
        Inr result \<Rightarrow> Inr result
      | Inl (error, result) \<Rightarrow>
          Inr (pushError \<lparr>re_row = 0,
                 re_errors = [''Import process failed: '' @ errorMessage ''Unknown error'' error],
                 re_data = NoData\<rparr> result))"

text \<open>The list \<open>validRows\<close> that an import hands to \<open>createMany\<close>: empty when the import returns
  before the loop.\<close>

definition stagedRows :: "builtins \<Rightarrow> multer_file option \<Rightarrow> string \<Rightarrow> row list" where
  "stagedRows J file ownerId =
     (case file of
        None \<Rightarrow> []
      | Some f \<Rightarrow>
          if \<not> fv_isValid (validateFile file) then []
          else case buffer_toString f of
                 Inl e \<Rightarrow> []
               | Inr csvContent \<Rightarrow>
                   (case stageParsed J ownerId (parseCSV csvContent) initialResult of
                      Inl result \<Rightarrow> []
                    | Inr staged \<Rightarrow> snd staged))"

text \<open>What the loop body adds for the row at index \<open>i\<close>: its effect on an empty result and an
  empty list of staged rows. \<open>rowDeltas\<close> lists them for the rows from index \<open>i\<close> on.\<close>

definition rowDelta :: "builtins \<Rightarrow> string \<Rightarrow> nat \<Rightarrow> row \<Rightarrow> ImportResult \<times> row list" where
  "rowDelta J ownerId i r = processRow J ownerId i r (initialResult, [])"

fun rowDeltas :: "builtins \<Rightarrow> string \<Rightarrow> nat \<Rightarrow> row list \<Rightarrow> (ImportResult \<times> row list) list" where
  "rowDeltas J ownerId i [] = []"
| "rowDeltas J ownerId i (r # rs) = rowDelta J ownerId i r # rowDeltas J ownerId (i + 1) rs"

text \<open>The prefix that the loop puts before a warning of row \<open>n\<close>.\<close>

definition rowPrefix :: "nat \<Rightarrow> string" where
  "rowPrefix n = ''Row '' @ showNat n @ '': ''"

text \<open>
  What the import reports of a row, in the words of the ordering claim. \<open>rowFailure\<close> is the
  list of messages of a row that is not imported: the failure of the cleaner or of
  \<open>validateRow\<close> when one of them throws, else the errors of \<open>validateRow\<close> followed by those
  of \<open>validateCSVRow\<close>; \<open>None\<close> when both accept the row. \<open>rowWarnings\<close> is the list of warnings
  of \<open>validateRow\<close>. \<open>validationErrors\<close> and \<open>rowWarningLines\<close> run through the rows in their
  order, the row at index \<open>i\<close> under the row number \<open>i + 2\<close>. \<open>insertError\<close> is the row-0 error
  of a bulk insert that fails.
\<close>

definition rowFailure :: "builtins \<Rightarrow> row \<Rightarrow> string list option" where
  "rowFailure J r =
     (case andThen (cleanRowData J r) (validateRow J) of
        Inl e \<Rightarrow> Some [''Row processing failed: '' @ errorMessage ''Unknown error'' e]
      | Inr (validation, cleanedRow) \<Rightarrow>
          (case validateCSVRow J cleanedRow of (ok, issues) \<Rightarrow>
             if isValid validation \<and> ok then None
             else Some (v_errors validation @ (if ok then [] else issues))))"

definition rowWarnings :: "builtins \<Rightarrow> row \<Rightarrow> string list" where
  "rowWarnings J r =
     (case andThen (cleanRowData J r) (validateRow J) of
        Inl e \<Rightarrow> []
      | Inr (validation, cleanedRow) \<Rightarrow> v_warnings validation)"

definition validationErrors :: "builtins \<Rightarrow> row list \<Rightarrow> RowError list" where
  "validationErrors J rows =
     concat (map (\<lambda>(i, r). case rowFailure J r of
                    None \<Rightarrow> []
                  | Some es \<Rightarrow> [\<lparr>re_row = i + 2, re_errors = es, re_data = RowObject r\<rparr>])
               (enumerate 0 rows))"

definition rowWarningLines :: "builtins \<Rightarrow> row list \<Rightarrow> string list" where
  "rowWarningLines J rows =
     concat (map (\<lambda>(i, r). map (\<lambda>w. rowPrefix (i + 2) @ w) (rowWarnings J r)) (enumerate 0 rows))"

definition insertError :: "(row list \<Rightarrow> exn option) \<Rightarrow> row list \<Rightarrow> RowError list" where
  "insertError createMany staged =
     (if staged = [] then []
      else case createMany staged of
        None \<Rightarrow> []
      | Some dbError \<Rightarrow>
          [\<lparr>re_row = 0,
            re_errors = [''Database import failed: '' @ errorMessage ''Unknown database error'' dbError],
            re_data = NoData\<rparr>])"

section \<open>Rows the cleaner is defined on\<close>

text \<open>
  A cell that the cleaner can take: a string, or a falsy value, which it skips. The cleaner
  looks at the cells of twelve keys; a row is \<open>cleanable\<close> when each of them is such a cell.
\<close>

definition isStringOrFalsy :: "jsval \<Rightarrow> bool" where
  "isStringOrFalsy v = (case v of VStr s \<Rightarrow> True | _ \<Rightarrow> \<not> truthy v)"

definition cleanable :: "row \<Rightarrow> bool" where
  "cleanable r =
     list_all (\<lambda>k. isStringOrFalsy (get r k))
       [''phone'', ''email'', ''budgetMin'', ''budgetMax'', ''tags'', ''city'', ''propertyType'',
        ''bhk'', ''purpose'', ''timeline'', ''source'', ''status'']"

text \<open>What holds of the cells of a cleaned row: its strings are trimmed, and a string cell of a
  cleaned key is one that cleaning the cell again gives back.\<close>

definition trimmedCells :: "row \<Rightarrow> bool" where
  "trimmedCells r = (\<forall>k s. r k = Some (VStr s) \<longrightarrow> trim s = s)"

definition phoneFixed :: "jsval \<Rightarrow> bool" where
  "phoneFixed v = (case v of VStr p \<Rightarrow> p = [] \<or> cleanPhoneNumber (VStr p) = Inr p | _ \<Rightarrow> True)"

definition emailFixed :: "jsval \<Rightarrow> bool" where
  "emailFixed v = (case v of VStr e \<Rightarrow> trim (toLowerCase e) = e | _ \<Rightarrow> True)"

definition noTruthyString :: "jsval \<Rightarrow> bool" where
  "noTruthyString v = (case v of VStr s \<Rightarrow> s = [] | _ \<Rightarrow> True)"

definition enumFixed :: "enum_field \<Rightarrow> jsval \<Rightarrow> bool" where
  "enumFixed field v =
     (case v of
        VStr s \<Rightarrow> s = [] \<or> mapEnumValue field (VStr s) = Inr (VStr s) \<or>
                  mapEnumValue field (VStr s) = Inr VNull
      | _ \<Rightarrow> True)"

text \<open>
  A step of the cleaner on the cell of key \<open>k\<close>: it returns exactly on the rows whose cell is a
  string or falsy, leaves the other cells, makes the cell satisfy \<open>Q\<close> and keeps strings trimmed.
  \<open>cellChain\<close> says the same of a sequence of steps on several keys.
\<close>

definition cellStep :: "string \<Rightarrow> (jsval \<Rightarrow> bool) \<Rightarrow> (row \<Rightarrow> exn + row) \<Rightarrow> bool" where
  "cellStep k Q s =
     (\<forall>x. (isStringOrFalsy (get x k) \<longrightarrow> (\<exists>y. s x = Inr y)) \<and>
          (\<not> isStringOrFalsy (get x k) \<longrightarrow> (\<exists>e. s x = Inl e)) \<and>
          (\<forall>y. s x = Inr y \<longrightarrow>
             Q (get y k) \<and> (\<forall>k'. k' \<noteq> k \<longrightarrow> y k' = x k') \<and> (trimmedCells x \<longrightarrow> trimmedCells y)))"

definition cellChain :: "(string \<times> (jsval \<Rightarrow> bool)) list \<Rightarrow> (row \<Rightarrow> exn + row) \<Rightarrow> bool" where
  "cellChain kqs f =
     (\<forall>x. ((\<forall>(k, Q) \<in> set kqs. isStringOrFalsy (get x k)) \<longrightarrow> (\<exists>y. f x = Inr y)) \<and>
          (\<not> (\<forall>(k, Q) \<in> set kqs. isStringOrFalsy (get x k)) \<longrightarrow> (\<exists>e. f x = Inl e)) \<and>
          (\<forall>y. f x = Inr y \<longrightarrow>
             (\<forall>(k, Q) \<in> set kqs. Q (get y k)) \<and> (\<forall>k'. k' \<notin> fst ` set kqs \<longrightarrow> y k' = x k') \<and>
             (trimmedCells x \<longrightarrow> trimmedCells y)))"

text \<open>The steps of \<open>cleanRowData\<close> between \<open>trimStrings\<close> and \<open>emptyStrings\<close>.\<close>

definition cleanSteps :: "builtins \<Rightarrow> row \<Rightarrow> exn + row" where
  "cleanSteps J r =
     andThen (cleanPhoneStep r) (\<lambda>r.
     andThen (cleanEmailStep r) (\<lambda>r.
     andThen (cleanBudgetStep ''budgetMin'' r) (\<lambda>r.
     andThen (cleanBudgetStep ''budgetMax'' r) (\<lambda>r.
     andThen (cleanTagsStep J r) (\<lambda>r.
     mapEnumSteps enumFields r)))))"

section \<open>Example inputs\<close>

text \<open>A cleaned row of a plot with a BHK value: the cleaner leaves each of its cells as it is.\<close>

definition plotRow :: row where
  "plotRow = [''fullName'' \<mapsto> VStr ''John'', ''phone'' \<mapsto> VStr ''9876543210'',
     ''city'' \<mapsto> VStr ''Chandigarh'', ''propertyType'' \<mapsto> VStr ''Plot'', ''bhk'' \<mapsto> VStr ''Two'',
     ''purpose'' \<mapsto> VStr ''Buy'', ''timeline'' \<mapsto> VStr ''ZeroToThree'', ''source'' \<mapsto> VStr ''Website'']"

text \<open>A cleaned row with \<open>budgetMin = 500000\<close> and \<open>budgetMax = 0\<close>: what the cleaner makes of the
  cells \<open>500000\<close> and \<open>0\<close>.\<close>

definition budgetRow :: row where
  "budgetRow = [''fullName'' \<mapsto> VStr ''John'', ''phone'' \<mapsto> VStr ''9876543210'',
     ''city'' \<mapsto> VStr ''Chandigarh'', ''propertyType'' \<mapsto> VStr ''Plot'',
     ''purpose'' \<mapsto> VStr ''Buy'', ''budgetMin'' \<mapsto> VNum 500000, ''budgetMax'' \<mapsto> VNum 0,
     ''timeline'' \<mapsto> VStr ''ZeroToThree'', ''source'' \<mapsto> VStr ''Website'']"

text \<open>A CSV text: a header line and data lines, each data line after a line feed.\<close>

definition csvText :: "string \<Rightarrow> string list \<Rightarrow> string" where
  "csvText header lines = header @ concat (map ((#) (CHR 0x0A)) lines)"

text \<open>An uploaded CSV file with the given text, as multer's memory storage hands it over.\<close>

definition csvFile :: "string \<Rightarrow> multer_file" where
  "csvFile content =
     \<lparr>f_size = length content, mimetype = ''text/csv'', originalname = ''buyers.csv'',
      buffer_toString = Inr content\<rparr>"

definition requiredHeader :: string where
  "requiredHeader = ''fullName,phone,city,propertyType,purpose,timeline,source''"

text \<open>The data row of the scenario of C2, and the row object the parser makes of it.\<close>

definition johnLine :: string where
  "johnLine = ''John,9876543210,Chandigarh,Apartment,Buy,ZeroToThree,Website''"

definition johnRow :: row where
  "johnRow = [''fullName'' \<mapsto> VStr ''John'', ''phone'' \<mapsto> VStr ''9876543210'',
     ''city'' \<mapsto> VStr ''Chandigarh'', ''propertyType'' \<mapsto> VStr ''Apartment'',
     ''purpose'' \<mapsto> VStr ''Buy'', ''timeline'' \<mapsto> VStr ''ZeroToThree'', ''source'' \<mapsto> VStr ''Website'']"

text \<open>A data row whose city cell is \<open>chd\<close>, and its row object.\<close>

definition chdLine :: string where
  "chdLine = ''John,9876543210,chd,Plot,Buy,ZeroToThree,Website''"

definition chdRow :: row where
  "chdRow = [''fullName'' \<mapsto> VStr ''John'', ''phone'' \<mapsto> VStr ''9876543210'',
     ''city'' \<mapsto> VStr ''chd'', ''propertyType'' \<mapsto> VStr ''Plot'',
     ''purpose'' \<mapsto> VStr ''Buy'', ''timeline'' \<mapsto> VStr ''ZeroToThree'', ''source'' \<mapsto> VStr ''Website'']"

text \<open>The cells of a row that the validators read, in the order of the keys of \<open>csvRowSchema\<close>.\<close>

definition cells :: "row \<Rightarrow> jsval list" where
  "cells r = map (get r) [''fullName'', ''email'', ''phone'', ''city'', ''propertyType'', ''bhk'',
     ''purpose'', ''budgetMin'', ''budgetMax'', ''timeline'', ''source'', ''notes'', ''tags'', ''status'']"


text \<open>A file of six data rows, the last with one column too many.\<close>

definition extraColumnCsv :: string where
  "extraColumnCsv =
     csvText requiredHeader [johnLine, johnLine, johnLine, johnLine, johnLine, johnLine @ '',x'']"

section \<open>Properties of the tokenizer\<close>

lemma set_trim: "set (trim s) \<subseteq> set s"
  by (auto simp: trim_def dest!: set_dropWhileD)

lemma split_nonempty: "split sep s \<noteq> []"
  by (induction s) (auto split: list.splits)

lemma scanLine_nonempty: "scanLine q cur res s \<noteq> []"
  by (induction q cur res s rule: scanLine.induct) (auto split: list.splits)

lemma scanLine_open_quote:
  "dq \<notin> set rest \<Longrightarrow> scanLine True cur res rest = res @ [trim (cur @ rest)]"
  by (induction rest arbitrary: cur) auto

lemma scanLine_unquoted:
  "dq \<notin> set pre \<Longrightarrow>
   scanLine False cur res (pre @ s) =
     scanLine False (last ((cur @ hd (split (CHR '','') pre)) # tl (split (CHR '','') pre)))
       (res @ map trim (butlast ((cur @ hd (split (CHR '','') pre)) # tl (split (CHR '','') pre)))) s"
proof (induction pre arbitrary: cur res)
  case Nil
  then show ?case by simp
next
  case (Cons c cs)
  obtain p ps where sp: "split (CHR '','') cs = p # ps"
    using split_nonempty by (cases "split (CHR '','') cs") auto
  from Cons.prems have nq: "c \<noteq> dq" "dq \<notin> set cs" by auto
  show ?case
  proof (cases "c = CHR '',''")
    case True
    then show ?thesis using Cons.IH [OF nq(2), of "[]" "res @ [trim cur]"] sp by simp
  next
    case False
    then show ?thesis using Cons.IH [OF nq(2), of "cur @ [c]" res] sp nq(1) by simp
  qed
qed

lemma doubled_Cons:
  "\<exists>a b. rest = a @ [dq, dq] @ b \<and> (q \<or> dq \<in> set a) \<Longrightarrow>
   \<exists>a b. c # rest = a @ [dq, dq] @ b \<and> (q \<or> dq \<in> set a)"
  by (metis append_Cons list.set_intros(2))

lemma doubled_after_quote:
  "\<exists>a b. rest = a @ [dq, dq] @ b \<and> (q' \<or> dq \<in> set a) \<Longrightarrow>
   \<exists>a b. dq # rest = a @ [dq, dq] @ b \<and> (q \<or> dq \<in> set a)"
  by (metis append_Cons list.set_intros(1))

lemma doubled_here:
  "\<exists>a b. dq # dq # rest = a @ [dq, dq] @ b \<and> (True \<or> dq \<in> set a)"
  by (metis append_Cons append_Nil)

lemma scanLine_quotes:
  "f \<in> set (scanLine q cur res s) \<Longrightarrow> dq \<in> set f \<Longrightarrow>
   f \<in> set res \<or> dq \<in> set cur \<or> (\<exists>a b. s = a @ [dq, dq] @ b \<and> (q \<or> dq \<in> set a))"
proof (induction q cur res s rule: scanLine.induct)
  case (1 inQuotes current result)
  then show ?case using set_trim by auto
next
  case (2 inQuotes current result c rest)
  show ?case
  proof (cases "c = dq")
    case True
    note cq = this
    show ?thesis
    proof (cases rest)
      case Nil
      with cq 2 show ?thesis using set_trim by auto
    next
      case (Cons n rest')
      show ?thesis
      proof (cases "inQuotes \<and> n = dq")
        case True
        then show ?thesis using cq Cons doubled_here [of rest'] by simp
      next
        case False
        with cq Cons 2
        have "f \<in> set result \<or> dq \<in> set current \<or>
              (\<exists>a b. rest = a @ [dq, dq] @ b \<and> (\<not> inQuotes \<or> dq \<in> set a))"
          by auto
        then show ?thesis
          using doubled_after_quote [of rest "\<not> inQuotes" inQuotes] cq by blast
      qed
    qed
  next
    case False
    note nq = this
    show ?thesis
    proof (cases "c = CHR '','' \<and> \<not> inQuotes")
      case True
      with nq 2
      have "f \<in> set (result @ [trim current]) \<or> dq \<in> set [] \<or>
            (\<exists>a b. rest = a @ [dq, dq] @ b \<and> (inQuotes \<or> dq \<in> set a))"
        by auto
      moreover have "f \<in> set (result @ [trim current]) \<Longrightarrow> f \<in> set result \<or> dq \<in> set current"
        using "2.prems"(2) set_trim by auto
      ultimately show ?thesis
        using doubled_Cons [of rest inQuotes c] by auto
    next
      case False
      with nq 2
      have "f \<in> set result \<or> dq \<in> set (current @ [c]) \<or>
            (\<exists>a b. rest = a @ [dq, dq] @ b \<and> (inQuotes \<or> dq \<in> set a))"
        by auto
      then show ?thesis
        using doubled_Cons [of rest inQuotes c] nq by auto
    qed
  qed
qed

lemma scanLine_state:
  "scanLine q cur res s = (case scanState q cur res s of (q', cur', res') \<Rightarrow> res' @ [trim cur'])"
  by (induction q cur res s rule: scanLine.induct) (auto split: list.splits)

lemma scanLine_inside:
  "scanState q cur res pre = (True, cur', res') \<Longrightarrow>
   scanLine q cur res (pre @ s) = scanLine True cur' res' s"
proof (induction q cur res pre rule: scanState.induct)
  case (1 inQuotes current result)
  then show ?case by simp
next
  case (2 inQuotes current result c rest)
  show ?case
  proof (cases "c = dq")
    case True
    note cq = this
    show ?thesis
    proof (cases rest)
      case Nil
      with cq "2.prems" have "\<not> inQuotes" "cur' = current" "res' = result" by auto
      with cq Nil show ?thesis by (cases s) auto
    next
      case (Cons n rest')
      with cq 2 show ?thesis by (cases "inQuotes \<and> n = dq") auto
    qed
  next
    case False
    with 2 show ?thesis by (cases "c = CHR '','' \<and> \<not> inQuotes") auto
  qed
qed

lemma scanLine_quotedText:
  "quotedText rest \<Longrightarrow> scanLine True cur res rest = res @ [trim (cur @ unescape rest)]"
  by (induction rest arbitrary: cur rule: quotedText.induct) auto

lemma quotedText_Cons: "c \<noteq> dq \<Longrightarrow> quotedText (c # rest) = quotedText rest"
  by (cases rest) auto

lemma scanState_toggle:
  "\<not> (q \<and> n = dq) \<Longrightarrow> scanState q cur res (dq # n # xs) = scanState (\<not> q) cur res (n # xs)"
  by (cases q) simp_all

lemma scanState_open:
  "fst (scanState q cur res line) \<Longrightarrow>
   (q \<and> quotedText line) \<or>
   (\<exists>pre rest. line = pre @ dq # rest \<and> fst (scanState q cur res (pre @ [dq])) \<and> quotedText rest)"
proof (induction q cur res line rule: scanState.induct)
  case (1 inQuotes current result)
  then show ?case by simp
next
  case (2 inQuotes current result c rest)
  let ?opens = "\<lambda>q cur res line. \<exists>pre rest. line = pre @ dq # rest \<and>
      fst (scanState q cur res (pre @ [dq])) \<and> quotedText rest"
  show ?case
  proof (cases "c = dq")
    case True
    note cq = this
    show ?thesis
    proof (cases rest)
      case Nil
      with cq "2.prems" have "\<not> inQuotes" by simp
      then have "c # rest = [] @ dq # [] \<and> fst (scanState inQuotes current result ([] @ [dq])) \<and> quotedText []"
        using cq Nil by simp
      then show ?thesis by blast
    next
      case (Cons n rest')
      show ?thesis
      proof (cases "inQuotes \<and> n = dq")
        case True
        with cq Cons "2.prems" have "fst (scanState inQuotes (current @ [dq]) result rest')" by simp
        with "2.IH"(2) [OF cq Cons True]
        consider "quotedText rest'" | pre r where "rest' = pre @ dq # r"
          "fst (scanState inQuotes (current @ [dq]) result (pre @ [dq]))" "quotedText r"
          by blast
        then show ?thesis
        proof cases
          case 1
          with True cq Cons show ?thesis by simp
        next
          case 2
          then have "c # rest = (dq # dq # pre) @ dq # r \<and>
              fst (scanState inQuotes current result ((dq # dq # pre) @ [dq])) \<and> quotedText r"
            using True cq Cons by simp
          then show ?thesis by blast
        qed
      next
        case False
        with cq Cons "2.prems" have "fst (scanState (\<not> inQuotes) current result rest)" by auto
        with "2.IH"(3) [OF cq Cons False]
        consider "\<not> inQuotes" "quotedText rest" | pre r where "rest = pre @ dq # r"
          "fst (scanState (\<not> inQuotes) current result (pre @ [dq]))" "quotedText r"
          by blast
        then show ?thesis
        proof cases
          case 1
          then have "c # rest = [] @ dq # rest \<and> fst (scanState inQuotes current result ([] @ [dq])) \<and>
              quotedText rest"
            using cq by simp
          then show ?thesis by blast
        next
          case 2
          obtain xs where xs: "pre @ [dq] = n # xs"
            using Cons 2(1) by (cases pre) auto
          have "scanState inQuotes current result (dq # pre @ [dq]) =
              scanState (\<not> inQuotes) current result (pre @ [dq])"
            unfolding xs using False by (rule scanState_toggle)
          then have "c # rest = (dq # pre) @ dq # r \<and>
              fst (scanState inQuotes current result ((dq # pre) @ [dq])) \<and> quotedText r"
            using 2 cq by simp
          then show ?thesis by blast
        qed
      qed
    qed
  next
    case False
    note nq = this
    show ?thesis
    proof (cases "c = CHR '','' \<and> \<not> inQuotes")
      case True
      with nq "2.prems" have "fst (scanState inQuotes [] (result @ [trim current]) rest)" by simp
      with "2.IH"(4) [OF nq True] True
      obtain pre r where pr: "rest = pre @ dq # r"
        "fst (scanState inQuotes [] (result @ [trim current]) (pre @ [dq]))" "quotedText r"
        by blast
      then have "c # rest = (c # pre) @ dq # r \<and>
          fst (scanState inQuotes current result ((c # pre) @ [dq])) \<and> quotedText r"
        using True nq by simp
      then show ?thesis by blast
    next
      case False
      with nq "2.prems" have "fst (scanState inQuotes (current @ [c]) result rest)" by auto
      with "2.IH"(5) [OF nq False]
      consider "inQuotes" "quotedText rest" | pre r where "rest = pre @ dq # r"
        "fst (scanState inQuotes (current @ [c]) result (pre @ [dq]))" "quotedText r"
        by blast
      then show ?thesis
      proof cases
        case 1
        then show ?thesis using nq by (simp add: quotedText_Cons)
      next
        case 2
        then have "c # rest = (c # pre) @ dq # r \<and>
            fst (scanState inQuotes current result ((c # pre) @ [dq])) \<and> quotedText r"
          using False nq by auto
        then show ?thesis by blast
      qed
    qed
  qed
qed

text \<open>
  C10. \<open>parseCSVLine\<close> is total (the scan is a structural recursion on the rest of the line)
  and returns at least one field: the fields the loop has pushed, then the trimmed current
  text. When a quote is open after \<open>pre\<close> and the quote that ends \<open>pre\<close>, and no quote of \<open>rest\<close>
  closes it, no comma of \<open>rest\<close> delimits: the fields are those pushed before, and one last
  field, the current text followed by all of \<open>rest\<close>. Every line that the loop leaves inside
  quotes is of that form. In particular, when the only quote of a line is never closed, the
  fields are those of the text before the quote, with the text after the quote appended to the
  last of them. A double quote occurs in an output field only when the line holds a doubled
  quote after an opening quote.
\<close>

theorem parseCSVLine_tokenizer:
  "parseCSVLine line \<noteq> [] \<and>
   parseCSVLine line = (case scanState False [] [] line of (q, cur, res) \<Rightarrow> res @ [trim cur]) \<and>
   (scanState False [] [] (pre @ [dq]) = (True, cur, res) \<and> quotedText rest \<longrightarrow>
      parseCSVLine (pre @ dq # rest) = res @ [trim (cur @ unescape rest)]) \<and>
   (fst (scanState False [] [] line) \<longrightarrow>
      (\<exists>pre rest. line = pre @ dq # rest \<and> fst (scanState False [] [] (pre @ [dq])) \<and> quotedText rest)) \<and>
   (dq \<notin> set pre \<and> dq \<notin> set rest \<longrightarrow>
      parseCSVLine (pre @ dq # rest) =
        map trim (butlast (split (CHR '','') pre)) @ [trim (last (split (CHR '','') pre) @ rest)]) \<and>
   (\<forall>f \<in> set (parseCSVLine line). dq \<in> set f \<longrightarrow>
      (\<exists>a b. line = a @ [dq, dq] @ b \<and> dq \<in> set a))"
proof (intro conjI impI ballI)
  show "parseCSVLine line \<noteq> []"
    by (simp add: parseCSVLine_def scanLine_nonempty)
next
  show "parseCSVLine line = (case scanState False [] [] line of (q, cur, res) \<Rightarrow> res @ [trim cur])"
    unfolding parseCSVLine_def by (rule scanLine_state)
next
  assume h: "scanState False [] [] (pre @ [dq]) = (True, cur, res) \<and> quotedText rest"
  then have "scanLine False [] [] ((pre @ [dq]) @ rest) = scanLine True cur res rest"
    by (intro scanLine_inside) simp
  then show "parseCSVLine (pre @ dq # rest) = res @ [trim (cur @ unescape rest)]"
    using h by (simp add: parseCSVLine_def scanLine_quotedText)
next
  assume "fst (scanState False [] [] line)"
  then show "\<exists>pre rest. line = pre @ dq # rest \<and> fst (scanState False [] [] (pre @ [dq])) \<and> quotedText rest"
    using scanState_open [of False "[]" "[]" line] by simp
next
  assume free: "dq \<notin> set pre \<and> dq \<notin> set rest"
  obtain p ps where sp: "split (CHR '','') pre = p # ps"
    using split_nonempty by (cases "split (CHR '','') pre") auto
  have "parseCSVLine (pre @ dq # rest) =
        scanLine False (last (p # ps)) (map trim (butlast (p # ps))) (dq # rest)"
    using scanLine_unquoted [of pre "[]" "[]" "dq # rest"] free sp
    by (simp add: parseCSVLine_def)
  also have "\<dots> = scanLine True (last (p # ps)) (map trim (butlast (p # ps))) rest"
    by (cases rest) simp_all
  also have "\<dots> = map trim (butlast (p # ps)) @ [trim (last (p # ps) @ rest)]"
    using scanLine_open_quote free by blast
  finally show "parseCSVLine (pre @ dq # rest) =
        map trim (butlast (split (CHR '','') pre)) @ [trim (last (split (CHR '','') pre) @ rest)]"
    using sp by simp
next
  fix f
  assume "f \<in> set (parseCSVLine line)" "dq \<in> set f"
  then show "\<exists>a b. line = a @ [dq, dq] @ b \<and> dq \<in> set a"
    using scanLine_quotes [of f False "[]" "[]" line] by (simp add: parseCSVLine_def)
qed

theorem parseCSVLine_tokenizer_witness:
  "scanState False [] [] ((dq # ''a'' @ dq # '',b,'') @ [dq]) = (True, [], [''a'', ''b'']) \<and>
   quotedText ''c,d'' \<and> fst (scanState False [] [] (dq # ''a'' @ dq # '',b,'' @ dq # ''c,d'')) \<and>
   parseCSVLine ((dq # ''a'' @ dq # '',b,'') @ dq # ''c,d'') = [''a'', ''b'', ''c,d''] \<and>
   parseCSVLine (''a, b'' @ dq # ''c,d'') = [''a'', ''bc,d''] \<and>
   parseCSVLine (dq # ''x'' @ dq # dq # ''y'' @ [dq]) = [''x'' @ dq # ''y''] \<and>
   (\<exists>a b. dq # ''x'' @ dq # dq # ''y'' @ [dq] = a @ [dq, dq] @ b \<and> dq \<in> set a)"
  using parseCSVLine_tokenizer [of "dq # ''a'' @ dq # '',b,'' @ dq # ''c,d''" "dq # ''a'' @ dq # '',b,''" "[]"
      "[''a'', ''b'']" "''c,d''"]
    parseCSVLine_tokenizer [of "dq # ''x'' @ dq # dq # ''y'' @ [dq]" "''a, b''" "''b''" "[''a'']" "''c,d''"]
  by (simp add: parseCSVLine_def trim_def isSpace_def)

section \<open>Evaluation\<close>

text \<open>The equations that evaluate the cleaner and the two validators on a given row.\<close>

lemma isSpace_iff:
  "isSpace c \<longleftrightarrow>
     c = CHR 0x09 \<or> c = CHR 0x0A \<or> c = CHR 0x0B \<or> c = CHR 0x0C \<or> c = CHR 0x0D \<or> c = CHR '' ''"
  by (simp add: isSpace_def)

lemmas clean_defs = cleanRowData_def andThen_def cleanPhoneStep_def cleanEmailStep_def
  cleanBudgetStep_def cleanTagsStep_def enumFields_def mapEnumStep_def emptyStrings_def
  trimStrings_def get_def trim_def isSpace_iff cleanPhoneNumber_def isDigit_def mapEnumValue_def
  toLowerCase_def toLowerChar_def property_def

lemmas validate_defs = validateRow_def andThen_def requiredFields_def missingRequired_def get_def
  trim_def isSpace_iff cleanPhoneNumber_def isDigit_def enumFields_def mapEnumValue_def jsLess_def
  jsCompare_def checkRequired_def checkPhone_def checkEmail_def checkEnums_def checkBhk_def
  checkBudget_def checkNotes_def checkFullName_def

lemmas zod_defs = validateCSVRow_def csvRowSchema_def zRefine_def zObject_def csvRowShape_def
  zOr_def zOptional_def zString_def zChecked_def zAbort_def zEnum_def zCoerceIntMin0_def
  zArrayOfStrings_def zNull_def zLiteralEmpty_def zLiteralEmptyToNull_def phoneSchema_def
  bhkRequirement_def budgetOrder_def jsGreaterEq_def jsCompare_def get_def isDigit_def
  invalidType_def

lemma andThen_Inr_iff: "andThen m f = Inr y \<longleftrightarrow> (\<exists>x. m = Inr x \<and> f x = Inr y)"
  by (cases m) (simp_all add: andThen_def)

section \<open>The row validator and its argument\<close>

lemma checkRequired_row: "snd (snd (checkRequired st)) = snd (snd st)"
  by (simp add: checkRequired_def split: prod.splits)

lemma checkPhone_row: "checkPhone st = Inr st' \<Longrightarrow> snd (snd st') = snd (snd st)"
  by (auto simp: checkPhone_def andThen_Inr_iff split: prod.splits if_splits)

lemma checkEmail_row: "snd (snd (checkEmail J st)) = snd (snd st)"
  by (simp add: checkEmail_def split: prod.splits)

lemma checkEnums_row: "checkEnums J st = Inr st' \<Longrightarrow> snd (snd st') = snd (snd st)"
  by (auto simp: checkEnums_def andThen_Inr_iff split: prod.splits)

lemma checkBudget_row: "snd (snd (checkBudget J st)) = snd (snd st)"
  by (simp add: checkBudget_def Let_def split: prod.splits)

lemma checkNotes_row: "snd (snd (checkNotes st)) = snd (snd st)"
  by (simp add: checkNotes_def split: prod.splits option.splits)

lemma checkFullName_row: "snd (snd (checkFullName st)) = snd (snd st)"
  by (simp add: checkFullName_def split: prod.splits option.splits)

lemma checkBhk_row:
  "snd (snd (checkBhk J st)) =
     (if (get (snd (snd st)) ''propertyType'' = VStr ''Plot'' \<or>
          get (snd (snd st)) ''propertyType'' = VStr ''Office'' \<or>
          get (snd (snd st)) ''propertyType'' = VStr ''Retail'') \<and> truthy (get (snd (snd st)) ''bhk'')
      then (snd (snd st))(''bhk'' \<mapsto> VNull) else snd (snd st))"
  by (auto simp: checkBhk_def Let_def split: prod.splits)

lemma validateRow_stages:
  assumes "validateRow J r = Inr (v, r')"
  obtains st1 st2 where
    "checkPhone (checkRequired ([], [], r)) = Inr st1"
    "checkEnums J (checkEmail J st1) = Inr st2"
    "v = \<lparr>isValid = (fst (checkFullName (checkNotes (checkBudget J (checkBhk J st2)))) = []),
          v_errors = fst (checkFullName (checkNotes (checkBudget J (checkBhk J st2)))),
          v_warnings = fst (snd (checkFullName (checkNotes (checkBudget J (checkBhk J st2)))))\<rparr>"
    "r' = snd (snd (checkFullName (checkNotes (checkBudget J (checkBhk J st2)))))"
proof -
  from assms obtain st1 st2 where
    s1: "checkPhone (checkRequired ([], [], r)) = Inr st1" and
    s2: "checkEnums J (checkEmail J st1) = Inr st2" and
    fin: "(case checkFullName (checkNotes (checkBudget J (checkBhk J st2))) of
            (es, ws, r') \<Rightarrow>
              Inr (\<lparr>isValid = (length es = 0), v_errors = es, v_warnings = ws\<rparr>, r')) =
          (Inr (v, r') :: exn + validation \<times> row)"
    unfolding validateRow_def andThen_Inr_iff by blast
  show thesis
    using that [OF s1 s2] fin
    by (cases "checkFullName (checkNotes (checkBudget J (checkBhk J st2)))") simp
qed

text \<open>
  C3, as the code has it. \<open>validateRow\<close> writes to its argument in one case: when the property
  type is Plot, Office or Retail and \<open>bhk\<close> holds a value, it sets \<open>bhk\<close> to \<open>null\<close> (the auto-fix).
  In every other case, and on every other field, the row it leaves is the row it was given.
\<close>

theorem validateRow_writes_bhk_only:
  "validateRow J r = Inr (v, r') \<Longrightarrow>
   r' = (if (get r ''propertyType'' = VStr ''Plot'' \<or> get r ''propertyType'' = VStr ''Office'' \<or>
             get r ''propertyType'' = VStr ''Retail'') \<and> truthy (get r ''bhk'')
         then r(''bhk'' \<mapsto> VNull) else r)"
proof -
  assume "validateRow J r = Inr (v, r')"
  then obtain st1 st2 where
    s1: "checkPhone (checkRequired ([], [], r)) = Inr st1" and
    s2: "checkEnums J (checkEmail J st1) = Inr st2" and
    s3: "r' = snd (snd (checkFullName (checkNotes (checkBudget J (checkBhk J st2)))))"
    by (rule validateRow_stages)
  from s1 have "snd (snd st1) = r"
    using checkPhone_row [OF s1] by (simp add: checkRequired_row)
  moreover from s2 have "snd (snd st2) = snd (snd st1)"
    using checkEnums_row [OF s2] by (simp add: checkEmail_row)
  ultimately show ?thesis
    using s3 by (simp add: checkFullName_row checkNotes_row checkBudget_row checkBhk_row)
qed

lemma plotRow_validated:
  "\<exists>v r'. validateRow J plotRow = Inr (v, r') \<and> isValid v"
  by (simp add: plotRow_def validate_defs)

theorem validateRow_writes_bhk_only_witness:
  "\<forall>J. \<exists>v. validateRow J plotRow = Inr (v, plotRow(''bhk'' \<mapsto> VNull))"
proof
  fix J
  obtain v r' where run: "validateRow J plotRow = Inr (v, r')"
    using plotRow_validated by blast
  have "r' = plotRow(''bhk'' \<mapsto> VNull)"
    using validateRow_writes_bhk_only [OF run] by (simp add: plotRow_def get_def)
  with run show "\<exists>v. validateRow J plotRow = Inr (v, plotRow(''bhk'' \<mapsto> VNull))" by blast
qed

text \<open>The claim as it was stated fails on that row: \<open>bhk\<close> holds \<open>'Two'\<close> before the call and
  \<open>null\<close> after it.\<close>

theorem validateRow_pure_counterexample:
  "\<forall>J. plotRow ''bhk'' = Some (VStr ''Two'') \<and>
       (case validateRow J plotRow of Inl e \<Rightarrow> None | Inr (v, r') \<Rightarrow> r' ''bhk'') = Some VNull"
  by (simp add: plotRow_def validate_defs)

section \<open>The budget rule\<close>

text \<open>
  C5 at \<open>budgetMin = 500000\<close>, \<open>budgetMax = 0\<close>. Both budgets are present and
  \<open>budgetMax < budgetMin\<close>, yet neither validator reports an error and the row is valid: the
  guard \<open>row.budgetMin && row.budgetMax\<close> reads the number 0 as an absent value.
\<close>

theorem budget_zero_max_accepted:
  "validateRow J budgetRow = Inr (\<lparr>isValid = True, v_errors = [], v_warnings = []\<rparr>, budgetRow) \<and>
   validateCSVRow J budgetRow = (True, [])"
  by (simp add: budgetRow_def validate_defs zod_defs)

section \<open>Every path of the import returns a result\<close>

lemma pushError_simps [simp]:
  "errors (pushError e result) = errors result @ [e]"
  "warnings (pushError e result) = warnings result"
  "totalRows (pushError e result) = totalRows result"
  "successfulImports (pushError e result) = successfulImports result"
  "failedImports (pushError e result) = failedImports result"
  "success (pushError e result) = success result"
  by (simp_all add: pushError_def)

lemma processRow_totalRows: "totalRows (fst (processRow J ownerId i r st)) = totalRows (fst st)"
  by (cases st) (simp add: processRow_def Let_def split: sum.splits prod.splits)

lemma processRows_totalRows: "totalRows (fst (processRows J ownerId i rs st)) = totalRows (fst st)"
  by (induction rs arbitrary: i st) (simp_all add: processRow_totalRows)

lemma insertRows_totalRows: "totalRows (insertRows createMany st) = totalRows (fst st)"
  by (cases st) (simp add: insertRows_def split: option.splits)

lemma stageParsed_Inl:
  "stageParsed J ownerId pr result = Inl r \<Longrightarrow>
   errors r \<noteq> [] \<and> success r = success result \<and> successfulImports r = successfulImports result"
  by (auto simp: stageParsed_def Let_def split: if_splits)

lemma stageParsed_Inr:
  "stageParsed J ownerId pr result = Inr st \<Longrightarrow> 0 < totalRows (fst st)"
  by (auto simp: stageParsed_def Let_def processRows_totalRows MAX_ROWS_def split: if_splits)

lemma importParsed_populated:
  assumes "success result = False" "successfulImports result = 0"
  shows "success (importParsed J createMany ownerId pr result) =
     (0 < successfulImports (importParsed J createMany ownerId pr result)) \<and>
   (0 < totalRows (importParsed J createMany ownerId pr result) \<or>
    errors (importParsed J createMany ownerId pr result) \<noteq> [])"
proof (cases "stageParsed J ownerId pr result")
  case (Inl r)
  with stageParsed_Inl [OF Inl] assms show ?thesis by (simp add: importParsed_def)
next
  case (Inr st)
  with stageParsed_Inr [OF Inr] show ?thesis
    by (simp add: importParsed_def Let_def insertRows_totalRows)
qed

lemma importBody_cases:
  "(importBody J createMany file ownerId result =
      Inr (pushError \<lparr>re_row = 0,
             re_errors = [case fv_error (validateFile file) of Some msg \<Rightarrow> msg
                          | None \<Rightarrow> ''File validation failed''],
             re_data = NoData\<rparr> result)) \<or>
   (\<exists>e. importBody J createMany file ownerId result = Inl (e, result)) \<or>
   (\<exists>f csvContent. file = Some f \<and> fv_isValid (validateFile file) \<and>
      buffer_toString f = Inr csvContent \<and>
      importBody J createMany file ownerId result =
        Inr (importParsed J createMany ownerId (parseCSV csvContent) result))"
proof (cases "fv_isValid (validateFile file)")
  case False
  then show ?thesis by (simp add: importBody_def Let_def)
next
  case True
  show ?thesis
  proof (cases "file")
    case None
    with True show ?thesis by (simp add: importBody_def Let_def)
  next
    case (Some f)
    with True show ?thesis
      by (cases "buffer_toString f") (simp_all add: importBody_def Let_def)
  qed
qed

text \<open>
  C8. \<open>importBuyersFromCSV\<close> never rejects: for every file (also a missing one, or one whose
  buffer cannot be read), every owner and every behaviour of the storage, it returns a result.
  The result is populated: \<open>success\<close> says whether a row was imported, and a result that counts
  no row carries an error.
\<close>

theorem importBuyersFromCSV_total:
  "\<exists>r. importBuyersFromCSV J createMany file ownerId = Inr r \<and>
       success r = (0 < successfulImports r) \<and> (0 < totalRows r \<or> errors r \<noteq> [])"
proof -
  have init: "success initialResult = False" "successfulImports initialResult = 0"
    by (simp_all add: initialResult_def)
  from importBody_cases [of J createMany "file" ownerId initialResult]
  show ?thesis
  proof (elim disjE exE conjE)
    assume "importBody J createMany file ownerId initialResult =
      Inr (pushError \<lparr>re_row = 0,
             re_errors = [case fv_error (validateFile file) of Some msg \<Rightarrow> msg
                          | None \<Rightarrow> ''File validation failed''],
             re_data = NoData\<rparr> initialResult)"
    then show ?thesis by (simp add: importBuyersFromCSV_def init)
  next
    fix e
    assume "importBody J createMany file ownerId initialResult = Inl (e, initialResult)"
    then show ?thesis by (simp add: importBuyersFromCSV_def init)
  next
    fix f csvContent
    assume "importBody J createMany file ownerId initialResult =
        Inr (importParsed J createMany ownerId (parseCSV csvContent) initialResult)"
    then show ?thesis
      using importParsed_populated [OF init, of J createMany ownerId "parseCSV csvContent"]
      by (simp add: importBuyersFromCSV_def)
  qed
qed

lemma import_no_file:
  "importBuyersFromCSV J createMany None ownerId =
     Inr (pushError \<lparr>re_row = 0, re_errors = [''No file provided''], re_data = NoData\<rparr> initialResult)"
  by (simp add: importBuyersFromCSV_def importBody_def validateFile_def)

theorem importBuyersFromCSV_total_witness:
  "\<forall>J createMany ownerId. \<exists>r. importBuyersFromCSV J createMany None ownerId = Inr r \<and>
     \<not> success r \<and> map re_errors (errors r) = [[''No file provided'']]"
proof (intro allI)
  fix J createMany ownerId
  obtain r where r: "importBuyersFromCSV J createMany None ownerId = Inr r"
    using importBuyersFromCSV_total by blast
  then show "\<exists>r. importBuyersFromCSV J createMany None ownerId = Inr r \<and>
     \<not> success r \<and> map re_errors (errors r) = [[''No file provided'']]"
    by (auto simp: import_no_file initialResult_def)
qed

section \<open>The loop over the rows\<close>

text \<open>The loop body adds to the state what it adds to an empty one, so the loop appends, row after
  row, the errors, warnings and staged rows of each row.\<close>

lemma processRow_delta:
  "processRow J ownerId i r (result, vr) =
     (result\<lparr>errors := errors result @ errors (fst (rowDelta J ownerId i r)),
             warnings := warnings result @ warnings (fst (rowDelta J ownerId i r)),
             successfulImports := successfulImports result + successfulImports (fst (rowDelta J ownerId i r)),
             failedImports := failedImports result + failedImports (fst (rowDelta J ownerId i r))\<rparr>,
      vr @ snd (rowDelta J ownerId i r))"
  by (simp add: rowDelta_def processRow_def Let_def initialResult_def pushError_def
           split: sum.splits prod.splits)

lemma rowDelta_errors:
  "errors (fst (rowDelta J ownerId i r)) = [] \<or>
   (\<exists>e. errors (fst (rowDelta J ownerId i r)) = [e] \<and> re_row e = i + 2)"
  by (simp add: rowDelta_def processRow_def Let_def initialResult_def pushError_def
           split: sum.splits prod.splits)


lemma rowDelta_counts:
  "successfulImports (fst (rowDelta J ownerId i r)) = length (snd (rowDelta J ownerId i r)) \<and>
   successfulImports (fst (rowDelta J ownerId i r)) + failedImports (fst (rowDelta J ownerId i r)) = 1"
  by (simp add: rowDelta_def processRow_def Let_def initialResult_def pushError_def
           split: sum.splits prod.splits)

lemma processRows_deltas:
  "processRows J ownerId i rs (result, vr) =
     (result\<lparr>errors := errors result @ concat (map (\<lambda>d. errors (fst d)) (rowDeltas J ownerId i rs)),
             warnings := warnings result @ concat (map (\<lambda>d. warnings (fst d)) (rowDeltas J ownerId i rs)),
             successfulImports := successfulImports result +
               sum_list (map (\<lambda>d. successfulImports (fst d)) (rowDeltas J ownerId i rs)),
             failedImports := failedImports result +
               sum_list (map (\<lambda>d. failedImports (fst d)) (rowDeltas J ownerId i rs))\<rparr>,
      vr @ concat (map snd (rowDeltas J ownerId i rs)))"
proof (induction rs arbitrary: i result vr)
  case Nil
  show ?case by simp
next
  case (Cons r rs)
  show ?case
    by (simp add: processRow_delta Cons.IH add.assoc)
qed

lemma rowDeltas_length [simp]: "length (rowDeltas J ownerId i rs) = length rs"
  by (induction rs arbitrary: i) simp_all

lemma rowDeltas_error_rows:
  "e \<in> set (concat (map (\<lambda>d. errors (fst d)) (rowDeltas J ownerId i rs))) \<Longrightarrow>
   i + 2 \<le> re_row e \<and> re_row e < i + 2 + length rs"
proof (induction rs arbitrary: i)
  case Nil
  then show ?case by simp
next
  case (Cons r rs)
  from Cons.prems consider
    (here) "e \<in> set (errors (fst (rowDelta J ownerId i r)))" |
    (later) "e \<in> set (concat (map (\<lambda>d. errors (fst d)) (rowDeltas J ownerId (i + 1) rs)))"
    by auto
  then show ?case
  proof cases
    case here
    then show ?thesis using rowDelta_errors [of J ownerId i r] by auto
  next
    case later
    then show ?thesis using Cons.IH [of "i + 1"] by auto
  qed
qed

lemma rowDeltas_errors_sorted:
  "sorted_wrt (<) (map re_row (concat (map (\<lambda>d. errors (fst d)) (rowDeltas J ownerId i rs))))"
proof (induction rs arbitrary: i)
  case Nil
  show ?case by simp
next
  case (Cons r rs)
  have later: "\<forall>e \<in> set (concat (map (\<lambda>d. errors (fst d)) (rowDeltas J ownerId (i + 1) rs))). i + 2 < re_row e"
    using rowDeltas_error_rows [of _ J ownerId "i + 1" rs] by fastforce
  from rowDelta_errors [of J ownerId i r] show ?case
  proof (elim disjE exE conjE)
    assume "errors (fst (rowDelta J ownerId i r)) = []"
    then show ?thesis using Cons.IH [of "i + 1"] by simp
  next
    fix e assume "errors (fst (rowDelta J ownerId i r)) = [e]" "re_row e = i + 2"
    then show ?thesis using Cons.IH [of "i + 1"] later by (auto simp: sorted_wrt_append)
  qed
qed

section \<open>The import after parsing\<close>

lemma import_valid:
  "fv_isValid (validateFile (Some f)) \<Longrightarrow> buffer_toString f = Inr content \<Longrightarrow>
   importBuyersFromCSV J createMany (Some f) ownerId =
     Inr (importParsed J createMany ownerId (parseCSV content) initialResult)"
  by (simp add: importBuyersFromCSV_def importBody_def Let_def)

lemma rowDeltas_counts:
  "sum_list (map (\<lambda>d. successfulImports (fst d)) (rowDeltas J ownerId i rs)) =
     length (concat (map snd (rowDeltas J ownerId i rs)))"
  by (induction rs arbitrary: i) (simp_all add: rowDelta_counts)


text \<open>The rows the loop runs on, and the warning of the cap.\<close>

lemma stageParsed_Inr_iff:
  "stageParsed J ownerId pr initialResult = Inr st \<longleftrightarrow>
     pr_data pr \<noteq> [] \<and> fst (validateRequiredHeaders (take MAX_ROWS (pr_data pr)) REQUIRED_HEADERS) \<and>
     st = processRows J ownerId 0 (take MAX_ROWS (pr_data pr))
            (initialResult\<lparr>errors := parserErrors pr,
               warnings := (if MAX_ROWS < length (pr_data pr) then [capWarning (length (pr_data pr))] else []),
               totalRows := min MAX_ROWS (length (pr_data pr))\<rparr>, [])"
  by (auto simp: stageParsed_def Let_def initialResult_def min_def)

lemma stageParsed_Inl_iff:
  "stageParsed J ownerId pr initialResult = Inl r \<longleftrightarrow>
     (pr_data pr = [] \<and>
      r = initialResult\<lparr>errors := parserErrors pr @
            [\<lparr>re_row = 0, re_errors = [''No valid data rows found in CSV''], re_data = NoData\<rparr>]\<rparr>) \<or>
     (pr_data pr \<noteq> [] \<and> \<not> fst (validateRequiredHeaders (take MAX_ROWS (pr_data pr)) REQUIRED_HEADERS) \<and>
      r = initialResult\<lparr>errors := parserErrors pr @
            [\<lparr>re_row = 0,
              re_errors = [''Missing required headers: '' @
                join '', '' (snd (validateRequiredHeaders (take MAX_ROWS (pr_data pr)) REQUIRED_HEADERS))],
              re_data = NoData\<rparr>],
            warnings := (if MAX_ROWS < length (pr_data pr) then [capWarning (length (pr_data pr))] else []),
            totalRows := min MAX_ROWS (length (pr_data pr))\<rparr>)"
  by (auto simp: stageParsed_def Let_def initialResult_def min_def pushError_def)


lemma staged_result:
  assumes "stageParsed J ownerId pr initialResult = Inr st"
  shows "successfulImports (fst st) = length (snd st)"
    and "totalRows (fst st) = min MAX_ROWS (length (pr_data pr))"
    and "warnings (fst st) =
           (if MAX_ROWS < length (pr_data pr) then [capWarning (length (pr_data pr))] else []) @
           concat (map (\<lambda>d. warnings (fst d)) (rowDeltas J ownerId 0 (take MAX_ROWS (pr_data pr))))"
    and "errors (fst st) = parserErrors pr @
           concat (map (\<lambda>d. errors (fst d)) (rowDeltas J ownerId 0 (take MAX_ROWS (pr_data pr))))"
    and "snd st = concat (map snd (rowDeltas J ownerId 0 (take MAX_ROWS (pr_data pr))))"
proof -
  from assms have st: "st = processRows J ownerId 0 (take MAX_ROWS (pr_data pr))
            (initialResult\<lparr>errors := parserErrors pr,
               warnings := (if MAX_ROWS < length (pr_data pr) then [capWarning (length (pr_data pr))] else []),
               totalRows := min MAX_ROWS (length (pr_data pr))\<rparr>, [])"
    by (simp add: stageParsed_Inr_iff)
  show "successfulImports (fst st) = length (snd st)"
    and "totalRows (fst st) = min MAX_ROWS (length (pr_data pr))"
    and "warnings (fst st) =
           (if MAX_ROWS < length (pr_data pr) then [capWarning (length (pr_data pr))] else []) @
           concat (map (\<lambda>d. warnings (fst d)) (rowDeltas J ownerId 0 (take MAX_ROWS (pr_data pr))))"
    and "errors (fst st) = parserErrors pr @
           concat (map (\<lambda>d. errors (fst d)) (rowDeltas J ownerId 0 (take MAX_ROWS (pr_data pr))))"
    and "snd st = concat (map snd (rowDeltas J ownerId 0 (take MAX_ROWS (pr_data pr))))"
    unfolding st processRows_deltas
    by (simp_all add: rowDeltas_counts initialResult_def)
qed

lemma stagedRows_nonempty:
  assumes "stagedRows J file ownerId \<noteq> []"
  obtains f content st where
    "file = Some f" "fv_isValid (validateFile (Some f))" "buffer_toString f = Inr content"
    "stageParsed J ownerId (parseCSV content) initialResult = Inr st"
    "snd st = stagedRows J file ownerId"
  using assms
  by (auto simp: stagedRows_def split: option.splits sum.splits if_splits)

text \<open>
  C7. When the import has staged at least one row and \<open>createMany\<close> throws on the staged rows,
  the result counts no imported row, counts every row as failed and is no success; its errors
  are those of the same import on a storage that works, followed by one row-0 error that
  describes the database failure, and its warnings and \<open>totalRows\<close> are the same.
\<close>

theorem insert_failure:
  assumes "stagedRows J file ownerId \<noteq> []"
    and "createMany (stagedRows J file ownerId) = Some dbError"
  shows "\<exists>r r0. importBuyersFromCSV J createMany file ownerId = Inr r \<and>
           importBuyersFromCSV J (\<lambda>rows. None) file ownerId = Inr r0 \<and>
           successfulImports r = 0 \<and> failedImports r = totalRows r \<and> \<not> success r \<and>
           errors r = errors r0 @
             [\<lparr>re_row = 0,
               re_errors = [''Database import failed: '' @ errorMessage ''Unknown database error'' dbError],
               re_data = NoData\<rparr>] \<and>
           totalRows r = totalRows r0 \<and> warnings r = warnings r0 \<and>
           successfulImports r0 = length (stagedRows J file ownerId)"
proof -
  from assms(1) obtain f content st where
    f: "file = Some f" and valid: "fv_isValid (validateFile (Some f))" and
    buf: "buffer_toString f = Inr content" and
    st: "stageParsed J ownerId (parseCSV content) initialResult = Inr st" and
    staged: "snd st = stagedRows J file ownerId"
    by (rule stagedRows_nonempty)
  have count: "successfulImports (fst st) = length (snd st)"
    using staged_result(1) [OF st] .
  have fail: "insertRows createMany st =
      (pushError \<lparr>re_row = 0,
          re_errors = [''Database import failed: '' @ errorMessage ''Unknown database error'' dbError],
          re_data = NoData\<rparr> (fst st))\<lparr>successfulImports := 0, failedImports := totalRows (fst st)\<rparr>"
    using assms staged by (cases st) (simp add: insertRows_def)
  have ok: "insertRows (\<lambda>rows. None) st = fst st"
    by (cases st) (simp add: insertRows_def)
  show ?thesis
    unfolding f import_valid [OF valid buf]
    using fail ok count staged f by (simp add: importParsed_def st Let_def)
qed




lemma insertRows_warnings: "warnings (insertRows createMany st) = warnings (fst st)"
  by (cases st) (simp add: insertRows_def split: option.splits)

lemma importParsed_cases:
  obtains (early) r where "stageParsed J ownerId pr initialResult = Inl r"
      "importParsed J createMany ownerId pr initialResult = r"
  | (staged) st where "stageParsed J ownerId pr initialResult = Inr st"
      "importParsed J createMany ownerId pr initialResult =
         (insertRows createMany st)\<lparr>success := 0 < successfulImports (insertRows createMany st)\<rparr>"
  by (cases "stageParsed J ownerId pr initialResult") (simp_all add: importParsed_def Let_def)


lemma importParsed_warnings:
  "warnings (importParsed J createMany ownerId pr initialResult) =
     (if MAX_ROWS < length (pr_data pr) then [capWarning (length (pr_data pr))] else []) @
     (if pr_data pr \<noteq> [] \<and> fst (validateRequiredHeaders (take MAX_ROWS (pr_data pr)) REQUIRED_HEADERS)
      then concat (map (\<lambda>d. warnings (fst d)) (rowDeltas J ownerId 0 (take MAX_ROWS (pr_data pr))))
      else [])"
proof (cases rule: importParsed_cases [of J ownerId pr createMany])
  case (early r)
  from early(1) [unfolded stageParsed_Inl_iff] show ?thesis
    unfolding early(2) by (auto simp: initialResult_def MAX_ROWS_def)
next
  case (staged st)
  from staged(1) [unfolded stageParsed_Inr_iff] show ?thesis
    unfolding staged(2) using staged_result(3) [OF staged(1)] by (simp add: insertRows_warnings)
qed




section \<open>Parsing a text line by line\<close>

lemma split_append_sep: "split sep (a @ sep # b) = split sep a @ split sep b"
  by (induction a) (auto split: list.splits simp: split_nonempty)

lemma split_no_sep: "sep \<notin> set s \<Longrightarrow> split sep s = [s]"
  by (induction s) auto

lemma split_lines:
  "\<forall>l \<in> set ls. sep \<notin> set l \<Longrightarrow>
   split sep (h @ concat (map ((#) sep) ls)) = split sep h @ ls"
proof (induction ls arbitrary: h)
  case Nil
  show ?case by simp
next
  case (Cons l ls)
  have "split sep ((h @ sep # l) @ concat (map ((#) sep) ls)) = split sep (h @ sep # l) @ ls"
    using Cons.IH [of "h @ sep # l"] Cons.prems by simp
  then show ?case using Cons.prems by (simp add: split_append_sep split_no_sep)
qed

lemma dropWhile_hd: "xs \<noteq> [] \<Longrightarrow> \<not> P (hd xs) \<Longrightarrow> dropWhile P xs = xs"
  by (cases xs) simp_all

lemma trim_id: "s \<noteq> [] \<Longrightarrow> \<not> isSpace (hd s) \<Longrightarrow> \<not> isSpace (last s) \<Longrightarrow> trim s = s"
  by (simp add: trim_def dropWhile_hd hd_rev)

lemma csvText_ends:
  "h \<noteq> [] \<Longrightarrow> ls \<noteq> [] \<Longrightarrow> last ls \<noteq> [] \<Longrightarrow>
   csvText h ls \<noteq> [] \<and> hd (csvText h ls) = hd h \<and> last (csvText h ls) = last (last ls)"
proof (induction ls rule: rev_induct)
  case Nil
  then show ?case by simp
next
  case (snoc l ls)
  then show ?case by (simp add: csvText_def)
qed

lemma csvText_trimmed:
  assumes "h \<noteq> []" "\<not> isSpace (hd h)" "ls \<noteq> []" "last ls \<noteq> []" "\<not> isSpace (last (last ls))"
  shows "trim (csvText h ls) = csvText h ls" and "csvText h ls \<noteq> []"
  using csvText_ends [OF assms(1,3,4)] assms(2,5) by (simp_all add: trim_id)

lemma nonBlankLines_csvText:
  assumes "h \<noteq> []" "\<not> isSpace (hd h)" "CHR 0x0A \<notin> set h" "trim h \<noteq> []"
    and "ls \<noteq> []" "last ls \<noteq> []" "\<not> isSpace (last (last ls))"
    and "\<forall>l \<in> set ls. CHR 0x0A \<notin> set l \<and> trim l \<noteq> []"
  shows "nonBlankLines (csvText h ls) = h # ls"
proof -
  have "trim (csvText h ls) = csvText h ls"
    using csvText_ends [OF assms(1,5,6)] assms(2,7) by (simp add: trim_id)
  moreover have "split (CHR 0x0A) (csvText h ls) = h # ls"
    using assms(3,8) split_lines [of ls "CHR 0x0A" h] by (simp add: csvText_def split_no_sep)
  ultimately show ?thesis
    using assms(4,8) by (simp add: nonBlankLines_def filter_id_conv)
qed


lemma parseCSV_lines:
  assumes "nonBlankLines content = h # ls" "ls \<noteq> []" "trim content \<noteq> []"
    and "CHR '','' \<in> set (trim h)"
    and "\<forall>l \<in> set (take 5 ls). length (parseCSVLine l) = length (parseCSVLine (trim h))"
  shows "parseCSV content =
     parseRows (map trim (parseCSVLine h)) 1 ls \<lparr>pr_data = [], pr_errors = []\<rparr>"
proof -
  have "content \<noteq> []" using assms(3) by (auto simp: trim_def)
  moreover have "filter (\<lambda>l. length (parseCSVLine l) \<noteq> length (parseCSVLine (trim h))) (take 5 ls) = []"
    using assms(5) by (simp add: filter_empty_conv)
  ultimately have "validateCSVFormat content = None"
    using assms(1-4) by (cases ls) (simp_all add: validateCSVFormat_def Let_def)
  then show ?thesis using assms(1) by (simp add: parseCSV_def Let_def)
qed


lemma requiredHeader_fields:
  "parseCSVLine requiredHeader =
     [''fullName'', ''phone'', ''city'', ''propertyType'', ''purpose'', ''timeline'', ''source'']"
  by (simp add: requiredHeader_def parseCSVLine_def trim_def isSpace_iff)

lemma johnLine_fields:
  "parseCSVLine johnLine =
     [''John'', ''9876543210'', ''Chandigarh'', ''Apartment'', ''Buy'', ''ZeroToThree'', ''Website'']"
  by (simp add: johnLine_def parseCSVLine_def trim_def isSpace_iff)

lemma chdLine_fields:
  "parseCSVLine chdLine =
     [''John'', ''9876543210'', ''chd'', ''Plot'', ''Buy'', ''ZeroToThree'', ''Website'']"
  by (simp add: chdLine_def parseCSVLine_def trim_def isSpace_iff)

lemma line_facts:
  "trim requiredHeader = requiredHeader" "trim johnLine = johnLine" "trim chdLine = chdLine"
  "requiredHeader \<noteq> []" "johnLine \<noteq> []" "chdLine \<noteq> []"
  "\<not> isSpace (hd requiredHeader)" "\<not> isSpace (last johnLine)" "\<not> isSpace (last chdLine)"
  "CHR 0x0A \<notin> set requiredHeader" "CHR 0x0A \<notin> set johnLine" "CHR 0x0A \<notin> set chdLine"
  "CHR '','' \<in> set requiredHeader"
  by (simp_all add: requiredHeader_def johnLine_def chdLine_def trim_def isSpace_iff)

lemma parseRows_Cons_ok:
  "trim l = l \<Longrightarrow> l \<noteq> [] \<Longrightarrow> length (parseCSVLine l) = length headers \<Longrightarrow>
   parseRows headers i (l # ls) result =
     parseRows headers (i + 1) ls
       (result\<lparr>pr_data := pr_data result @ [makeRow headers (parseCSVLine l) Map.empty]\<rparr>)"
  by (simp add: fixColumns_def)

lemma parseRows_Cons_extra:
  "trim l = l \<Longrightarrow> l \<noteq> [] \<Longrightarrow> length (parseCSVLine l) > length headers \<Longrightarrow>
   parseRows headers i (l # ls) result =
     parseRows headers (i + 1) ls
       (result\<lparr>pr_data := pr_data result @
                 [makeRow headers (take (length headers) (parseCSVLine l)) Map.empty],
               pr_errors := pr_errors result @
                 [\<lparr>pe_row = i + 1,
                   pe_message = ''Row had '' @ showNat (length headers) @ '' columns, expected '' @
                     showNat (length headers) @ ''. Extra columns removed.'',
                   pe_rawData = Some l\<rparr>]\<rparr>)"
  by (simp add: fixColumns_def Let_def)

lemma header_trimmed:
  "map trim [''fullName'', ''phone'', ''city'', ''propertyType'', ''purpose'', ''timeline'', ''source''] =
     [''fullName'', ''phone'', ''city'', ''propertyType'', ''purpose'', ''timeline'', ''source'']"
  by (simp add: trim_def isSpace_iff)

lemma parse_single:
  assumes "l \<noteq> []" "trim l = l" "\<not> isSpace (last l)" "CHR 0x0A \<notin> set l"
    and "length (parseCSVLine l) = 7"
  shows "parseCSV (csvText requiredHeader [l]) =
     \<lparr>pr_data = [makeRow [''fullName'', ''phone'', ''city'', ''propertyType'', ''purpose'', ''timeline'', ''source'']
                   (parseCSVLine l) Map.empty],
      pr_errors = []\<rparr>"
proof -
  have nb: "nonBlankLines (csvText requiredHeader [l]) = [requiredHeader, l]"
    using assms by (intro nonBlankLines_csvText) (simp_all add: line_facts)
  have "trim (csvText requiredHeader [l]) \<noteq> []"
    using csvText_trimmed [of requiredHeader "[l]"] assms by (simp add: line_facts)
  then have "parseCSV (csvText requiredHeader [l]) =
      parseRows (map trim (parseCSVLine requiredHeader)) 1 [l] \<lparr>pr_data = [], pr_errors = []\<rparr>"
    using nb assms by (intro parseCSV_lines) (simp_all add: line_facts requiredHeader_fields)
  also have "\<dots> = parseRows [''fullName'', ''phone'', ''city'', ''propertyType'', ''purpose'', ''timeline'', ''source'']
        1 [l] \<lparr>pr_data = [], pr_errors = []\<rparr>"
    unfolding requiredHeader_fields header_trimmed ..
  also have "\<dots> = parseRows [''fullName'', ''phone'', ''city'', ''propertyType'', ''purpose'', ''timeline'', ''source'']
        (1 + 1) []
        (\<lparr>pr_data = [], pr_errors = []\<rparr>\<lparr>pr_data := pr_data \<lparr>pr_data = [], pr_errors = []\<rparr> @
           [makeRow [''fullName'', ''phone'', ''city'', ''propertyType'', ''purpose'', ''timeline'', ''source'']
              (parseCSVLine l) Map.empty]\<rparr>)"
    using assms by (intro parseRows_Cons_ok) simp_all
  also have "\<dots> = \<lparr>pr_data = [makeRow [''fullName'', ''phone'', ''city'', ''propertyType'', ''purpose'', ''timeline'', ''source'']
                   (parseCSVLine l) Map.empty], pr_errors = []\<rparr>"
    by (simp del: makeRow.simps)
  finally show ?thesis .
qed

lemma john_facts:
  "johnLine \<noteq> []" "trim johnLine = johnLine" "\<not> isSpace (last johnLine)"
  "CHR 0x0A \<notin> set johnLine" "length (parseCSVLine johnLine) = 7"
  by (simp_all add: line_facts johnLine_fields)

lemma chd_facts:
  "chdLine \<noteq> []" "trim chdLine = chdLine" "\<not> isSpace (last chdLine)"
  "CHR 0x0A \<notin> set chdLine" "length (parseCSVLine chdLine) = 7"
  by (simp_all add: line_facts chdLine_fields)

lemma parse_john:
  "parseCSV (csvText requiredHeader [johnLine]) = \<lparr>pr_data = [johnRow], pr_errors = []\<rparr>"
  using parse_single [OF john_facts]
  by (simp add: johnLine_fields johnRow_def trim_def isSpace_iff)

lemma parse_chd:
  "parseCSV (csvText requiredHeader [chdLine]) = \<lparr>pr_data = [chdRow], pr_errors = []\<rparr>"
  using parse_single [OF chd_facts]
  by (simp add: chdLine_fields chdRow_def trim_def isSpace_iff)


section \<open>The import of the example files\<close>

lemmas validate_steps = validateRow_def andThen_def requiredFields_def missingRequired_def
  trim_def isSpace_iff cleanPhoneNumber_def isDigit_def enumFields_def mapEnumValue_def jsLess_def
  jsCompare_def checkRequired_def checkPhone_def checkEmail_def checkEnums_def checkBhk_def
  checkBudget_def checkNotes_def checkFullName_def Let_def

lemmas zod_steps = validateCSVRow_def csvRowSchema_def zRefine_def zObject_def csvRowShape_def
  zOr_def zOptional_def zString_def zChecked_def zAbort_def zEnum_def zCoerceIntMin0_def
  zArrayOfStrings_def zNull_def zLiteralEmpty_def zLiteralEmptyToNull_def phoneSchema_def
  bhkRequirement_def budgetOrder_def jsGreaterEq_def jsCompare_def isDigit_def invalidType_def

lemma get_upd: "get (m(k \<mapsto> v)) k' = (if k' = k then v else get m k')"
  by (simp add: get_def)

lemma get_empty: "get Map.empty k = VUndefined"
  by (simp add: get_def)

lemma cells_iff:
  "cells r = [a1, a2, a3, a4, a5, a6, a7, a8, a9, a10, a11, a12, a13, a14] \<longleftrightarrow>
     get r ''fullName'' = a1 \<and> get r ''email'' = a2 \<and> get r ''phone'' = a3 \<and> get r ''city'' = a4 \<and>
     get r ''propertyType'' = a5 \<and> get r ''bhk'' = a6 \<and> get r ''purpose'' = a7 \<and>
     get r ''budgetMin'' = a8 \<and> get r ''budgetMax'' = a9 \<and> get r ''timeline'' = a10 \<and>
     get r ''source'' = a11 \<and> get r ''notes'' = a12 \<and> get r ''tags'' = a13 \<and> get r ''status'' = a14"
  by (simp add: cells_def)

lemma john_cleaned:
  "\<exists>c. cleanRowData J johnRow = Inr c \<and>
     cells c = [VStr ''John'', VUndefined, VStr ''9876543210'', VStr ''Chandigarh'', VStr ''Apartment'',
       VUndefined, VStr ''Buy'', VUndefined, VUndefined, VStr ''ZeroToThree'', VStr ''Website'',
       VUndefined, VUndefined, VUndefined]"
  by (simp add: johnRow_def clean_defs cells_def)

lemma john_validateRow:
  assumes "cells c = [VStr ''John'', VUndefined, VStr ''9876543210'', VStr ''Chandigarh'', VStr ''Apartment'',
       VUndefined, VStr ''Buy'', VUndefined, VUndefined, VStr ''ZeroToThree'', VStr ''Website'',
       VUndefined, VUndefined, VUndefined]"
  shows "validateRow J c =
     Inr (\<lparr>isValid = False, v_errors = [''bhk is required for Apartment properties''], v_warnings = []\<rparr>, c)"
  using assms [unfolded cells_iff] by (simp add: validate_steps)

lemma john_validateCSVRow:
  assumes "cells c = [VStr ''John'', VUndefined, VStr ''9876543210'', VStr ''Chandigarh'', VStr ''Apartment'',
       VUndefined, VStr ''Buy'', VUndefined, VUndefined, VStr ''ZeroToThree'', VStr ''Website'',
       VUndefined, VUndefined, VUndefined]"
  shows "validateCSVRow J c = (False, [''bhk: BHK is required for Apartment and Villa property types''])"
  using assms [unfolded cells_iff] by (simp add: zod_steps get_upd get_empty)

lemma john_delta:
  "rowDelta J ownerId i johnRow =
     (initialResult\<lparr>failedImports := 1,
        errors := [\<lparr>re_row = i + 2,
          re_errors = [''bhk is required for Apartment properties'',
                       ''bhk: BHK is required for Apartment and Villa property types''],
          re_data = RowObject johnRow\<rparr>]\<rparr>, [])"
proof -
  obtain c where c: "cleanRowData J johnRow = Inr c" and
    cs: "cells c = [VStr ''John'', VUndefined, VStr ''9876543210'', VStr ''Chandigarh'', VStr ''Apartment'',
       VUndefined, VStr ''Buy'', VUndefined, VUndefined, VStr ''ZeroToThree'', VStr ''Website'',
       VUndefined, VUndefined, VUndefined]"
    using john_cleaned by blast
  show ?thesis
    by (simp add: rowDelta_def processRow_def c andThen_def john_validateRow [OF cs]
          john_validateCSVRow [OF cs] initialResult_def pushError_def)
qed


lemma chd_cleaned:
  "\<exists>c. cleanRowData J chdRow = Inr c \<and>
     cells c = [VStr ''John'', VUndefined, VStr ''9876543210'', VStr ''Chandigarh'', VStr ''Plot'',
       VUndefined, VStr ''Buy'', VUndefined, VUndefined, VStr ''ZeroToThree'', VStr ''Website'',
       VUndefined, VUndefined, VUndefined]"
  by (simp add: chdRow_def clean_defs cells_def)

lemma chd_validateRow:
  assumes "cells c = [VStr ''John'', VUndefined, VStr ''9876543210'', VStr ''Chandigarh'', VStr ''Plot'',
       VUndefined, VStr ''Buy'', VUndefined, VUndefined, VStr ''ZeroToThree'', VStr ''Website'',
       VUndefined, VUndefined, VUndefined]"
  shows "validateRow J c = Inr (\<lparr>isValid = True, v_errors = [], v_warnings = []\<rparr>, c)"
  using assms [unfolded cells_iff] by (simp add: validate_steps)

lemma chd_validateCSVRow:
  assumes "cells c = [VStr ''John'', VUndefined, VStr ''9876543210'', VStr ''Chandigarh'', VStr ''Plot'',
       VUndefined, VStr ''Buy'', VUndefined, VUndefined, VStr ''ZeroToThree'', VStr ''Website'',
       VUndefined, VUndefined, VUndefined]"
  shows "validateCSVRow J c = (True, [])"
  using assms [unfolded cells_iff] by (simp add: zod_steps get_upd get_empty)

lemma chd_delta:
  "\<exists>c. rowDelta J ownerId i chdRow = (initialResult\<lparr>successfulImports := 1\<rparr>, [c]) \<and>
       get c ''city'' = VStr ''Chandigarh''"
proof -
  obtain c where c: "cleanRowData J chdRow = Inr c" and
    cs: "cells c = [VStr ''John'', VUndefined, VStr ''9876543210'', VStr ''Chandigarh'', VStr ''Plot'',
       VUndefined, VStr ''Buy'', VUndefined, VUndefined, VStr ''ZeroToThree'', VStr ''Website'',
       VUndefined, VUndefined, VUndefined]"
    using chd_cleaned by blast
  have "get c ''city'' = VStr ''Chandigarh''" using cs by (simp add: cells_iff)
  then show ?thesis
    by (simp add: rowDelta_def processRow_def c andThen_def chd_validateRow [OF cs]
          chd_validateCSVRow [OF cs] initialResult_def pushError_def get_upd)
qed

lemma csvFile_valid:
  "content \<noteq> [] \<Longrightarrow> length content \<le> MAX_FILE_SIZE \<Longrightarrow>
   fv_isValid (validateFile (Some (csvFile content)))"
  by (simp add: validateFile_def csvFile_def Let_def)

lemma import_csvFile:
  "content \<noteq> [] \<Longrightarrow> length content \<le> MAX_FILE_SIZE \<Longrightarrow>
   importBuyersFromCSV J createMany (Some (csvFile content)) ownerId =
     Inr (importParsed J createMany ownerId (parseCSV content) initialResult)"
  by (rule import_valid [OF csvFile_valid]) (simp_all add: csvFile_def)

lemma required_headers_present:
  "fst (validateRequiredHeaders (johnRow # rs) REQUIRED_HEADERS)"
  "fst (validateRequiredHeaders (chdRow # rs) REQUIRED_HEADERS)"
  by (simp_all add: validateRequiredHeaders_def REQUIRED_HEADERS_def johnRow_def chdRow_def)

lemma john_csv_size:
  "csvText requiredHeader [johnLine] \<noteq> []" "length (csvText requiredHeader [johnLine]) \<le> MAX_FILE_SIZE"
  "csvText requiredHeader [chdLine] \<noteq> []" "length (csvText requiredHeader [chdLine]) \<le> MAX_FILE_SIZE"
  by (simp_all add: csvText_def requiredHeader_def johnLine_def chdLine_def MAX_FILE_SIZE_def)

lemma import_john:
  "importBuyersFromCSV J createMany (Some (csvFile (csvText requiredHeader [johnLine]))) ownerId =
     Inr \<lparr>success = False, totalRows = 1, successfulImports = 0, failedImports = 1,
          errors = [\<lparr>re_row = 2,
            re_errors = [''bhk is required for Apartment properties'',
                         ''bhk: BHK is required for Apartment and Villa property types''],
            re_data = RowObject johnRow\<rparr>],
          warnings = []\<rparr>"
proof -
  have "stageParsed J ownerId \<lparr>pr_data = [johnRow], pr_errors = []\<rparr> initialResult =
      Inr (processRows J ownerId 0 [johnRow] (initialResult\<lparr>errors := [], warnings := [], totalRows := 1\<rparr>, []))"
    by (simp add: stageParsed_Inr_iff required_headers_present MAX_ROWS_def parserErrors_def)
  then show ?thesis
    unfolding import_csvFile [OF john_csv_size(1,2)] parse_john importParsed_def processRows_deltas
    by (simp add: john_delta insertRows_def initialResult_def)
qed


lemma chd_stage:
  "\<exists>c. stageParsed J ownerId \<lparr>pr_data = [chdRow], pr_errors = []\<rparr> initialResult =
         Inr (initialResult\<lparr>totalRows := 1, successfulImports := 1\<rparr>, [c]) \<and>
       get c ''city'' = VStr ''Chandigarh''"
proof -
  obtain c where c: "rowDelta J ownerId 0 chdRow = (initialResult\<lparr>successfulImports := 1\<rparr>, [c])"
    and city: "get c ''city'' = VStr ''Chandigarh''"
    using chd_delta by blast
  have "stageParsed J ownerId \<lparr>pr_data = [chdRow], pr_errors = []\<rparr> initialResult =
      Inr (processRows J ownerId 0 [chdRow] (initialResult\<lparr>errors := [], warnings := [], totalRows := 1\<rparr>, []))"
    by (simp add: stageParsed_Inr_iff required_headers_present MAX_ROWS_def parserErrors_def)
  then have "stageParsed J ownerId \<lparr>pr_data = [chdRow], pr_errors = []\<rparr> initialResult =
         Inr (initialResult\<lparr>totalRows := 1, successfulImports := 1\<rparr>, [c])"
    unfolding processRows_deltas by (simp add: c initialResult_def)
  with city show ?thesis by blast
qed

lemma chd_staged:
  "\<exists>c. stagedRows J (Some (csvFile (csvText requiredHeader [chdLine]))) ownerId = [c] \<and>
       get c ''city'' = VStr ''Chandigarh''"
proof -
  obtain c where c: "stageParsed J ownerId \<lparr>pr_data = [chdRow], pr_errors = []\<rparr> initialResult =
         Inr (initialResult\<lparr>totalRows := 1, successfulImports := 1\<rparr>, [c])"
    and city: "get c ''city'' = VStr ''Chandigarh''"
    using chd_stage by blast
  have "stagedRows J (Some (csvFile (csvText requiredHeader [chdLine]))) ownerId = [c]"
    using csvFile_valid [OF john_csv_size(3,4)]
    by (simp add: stagedRows_def parse_chd c) (simp add: csvFile_def parse_chd c)
  with city show ?thesis by blast
qed

lemma import_chd:
  "importBuyersFromCSV J (\<lambda>rows. None) (Some (csvFile (csvText requiredHeader [chdLine]))) ownerId =
     Inr \<lparr>success = True, totalRows = 1, successfulImports = 1, failedImports = 0,
          errors = [], warnings = []\<rparr>"
proof -
  obtain c where c: "stageParsed J ownerId \<lparr>pr_data = [chdRow], pr_errors = []\<rparr> initialResult =
         Inr (initialResult\<lparr>totalRows := 1, successfulImports := 1\<rparr>, [c])"
    using chd_stage by blast
  show ?thesis
    unfolding import_csvFile [OF john_csv_size(3,4)] parse_chd importParsed_def c
    by (simp add: insertRows_def initialResult_def)
qed

text \<open>
  C2, as the code has it. For the CSV of the scenario the import rejects row 2 with two errors:
  \<open>validateRow\<close> reports the missing BHK, \<open>validateCSVRow\<close> reports it again in the words of
  \<open>csvRowSchema\<close>, and the import records the messages of both.
\<close>

theorem john_csv_two_errors:
  "importBuyersFromCSV J createMany (Some (csvFile (csvText requiredHeader [johnLine]))) ownerId =
     Inr \<lparr>success = False, totalRows = 1, successfulImports = 0, failedImports = 1,
          errors = [\<lparr>re_row = 2,
            re_errors = [''bhk is required for Apartment properties'',
                         ''bhk: BHK is required for Apartment and Villa property types''],
            re_data = RowObject johnRow\<rparr>],
          warnings = []\<rparr>"
  by (rule import_john)

text \<open>The errors list of row 2 does not have length 1.\<close>

theorem john_csv_one_error_counterexample:
  "\<forall>J createMany ownerId.
     (case importBuyersFromCSV J createMany (Some (csvFile (csvText requiredHeader [johnLine]))) ownerId of
        Inl e \<Rightarrow> []
      | Inr r \<Rightarrow> map (\<lambda>e. (re_row e, length (re_errors e))) (errors r)) = [(2, 2)]"
  by (simp add: import_john)

text \<open>
  C4 on a file whose one data row has the city cell \<open>chd\<close>. The row is imported with the city
  \<open>Chandigarh\<close> and without an error, but the result holds no warning: the cleaner has replaced
  the cell before \<open>validateRow\<close> looks for a value to report as mapped.
\<close>

theorem chd_city_mapped_without_warning:
  "\<exists>c. importBuyersFromCSV J (\<lambda>rows. None) (Some (csvFile (csvText requiredHeader [chdLine]))) ownerId =
         Inr \<lparr>success = True, totalRows = 1, successfulImports = 1, failedImports = 0,
              errors = [], warnings = []\<rparr> \<and>
       stagedRows J (Some (csvFile (csvText requiredHeader [chdLine]))) ownerId = [c] \<and>
       get c ''city'' = VStr ''Chandigarh''"
  using chd_staged [of J ownerId] by (simp add: import_chd)

text \<open>The same file on a storage that throws.\<close>

theorem insert_failure_witness:
  "\<forall>J ownerId. \<exists>r.
     importBuyersFromCSV J (\<lambda>rows. Some (Error ''connection lost''))
       (Some (csvFile (csvText requiredHeader [chdLine]))) ownerId = Inr r \<and>
     successfulImports r = 0 \<and> failedImports r = 1 \<and> totalRows r = 1 \<and> \<not> success r \<and>
     errors r = [\<lparr>re_row = 0, re_errors = [''Database import failed: connection lost''],
                  re_data = NoData\<rparr>]"
proof (intro allI)
  fix J ownerId
  let ?file = "Some (csvFile (csvText requiredHeader [chdLine]))"
  let ?db = "\<lambda>rows :: row list. Some (Error ''connection lost'')"
  obtain c where c: "stagedRows J ?file ownerId = [c]"
    using chd_staged by blast
  have "stagedRows J ?file ownerId \<noteq> []" using c by simp
  moreover have "?db (stagedRows J ?file ownerId) = Some (Error ''connection lost'')" by simp
  ultimately obtain r r0 where
    "importBuyersFromCSV J ?db ?file ownerId = Inr r"
    "importBuyersFromCSV J (\<lambda>rows. None) ?file ownerId = Inr r0"
    "successfulImports r = 0" "failedImports r = totalRows r" "\<not> success r"
    "errors r = errors r0 @
       [\<lparr>re_row = 0,
         re_errors = [''Database import failed: '' @ errorMessage ''Unknown database error'' (Error ''connection lost'')],
         re_data = NoData\<rparr>]"
    "totalRows r = totalRows r0"
    using insert_failure [of J ?file ownerId ?db "Error ''connection lost''"] by blast
  then show "\<exists>r. importBuyersFromCSV J ?db ?file ownerId = Inr r \<and>
     successfulImports r = 0 \<and> failedImports r = 1 \<and> totalRows r = 1 \<and> \<not> success r \<and>
     errors r = [\<lparr>re_row = 0, re_errors = [''Database import failed: connection lost''],
                  re_data = NoData\<rparr>]"
    by (auto simp: import_chd errorMessage_def)
qed

section \<open>A file beyond the row cap\<close>




section \<open>The order of errors and warnings\<close>

lemma fixColumns_diag:
  "snd (fixColumns i line n vs) = [] \<or>
   (\<exists>d. snd (fixColumns i line n vs) = [d] \<and> pe_row d = i + 1)"
  by (simp add: fixColumns_def Let_def)

lemma parseRows_errors:
  "\<exists>ds. pr_errors (parseRows headers i ls result) = pr_errors result @ ds \<and>
        sorted_wrt (<) (map pe_row ds) \<and> (\<forall>d \<in> set ds. i < pe_row d)"
proof (induction ls arbitrary: i result)
  case Nil
  show ?case by simp
next
  case (Cons l ls)
  show ?case
  proof (cases "trim l = []")
    case True
    obtain ds where "pr_errors (parseRows headers (i + 1) ls result) = pr_errors result @ ds"
      "sorted_wrt (<) (map pe_row ds)" "\<forall>d \<in> set ds. i + 1 < pe_row d"
      using Cons.IH [of "i + 1" result] by blast
    with True show ?thesis by (intro exI [of _ ds]) auto
  next
    case False
    define fixed where "fixed = fixColumns i (trim l) (length headers) (parseCSVLine (trim l))"
    define result' where "result' = result\<lparr>pr_data := pr_data result @ [makeRow headers (fst fixed) Map.empty],
                  pr_errors := pr_errors result @ snd fixed\<rparr>"
    have step: "parseRows headers i (l # ls) result = parseRows headers (i + 1) ls result'"
      using False by (simp add: fixed_def result'_def Let_def split: prod.splits)
    obtain ds where ds: "pr_errors (parseRows headers (i + 1) ls result') = pr_errors result' @ ds"
      "sorted_wrt (<) (map pe_row ds)" "\<forall>d \<in> set ds. i + 1 < pe_row d"
      using Cons.IH [of "i + 1" result'] by blast
    have here: "snd fixed = [] \<or> (\<exists>d. snd fixed = [d] \<and> pe_row d = i + 1)"
      unfolding fixed_def by (rule fixColumns_diag)
    have "pr_errors (parseRows headers i (l # ls) result) = pr_errors result @ (snd fixed @ ds)"
      using step ds(1) by (simp add: result'_def)
    moreover have "sorted_wrt (<) (map pe_row (snd fixed @ ds))"
      using here ds(2,3) by (auto simp: sorted_wrt_append)
    moreover have "\<forall>d \<in> set (snd fixed @ ds). i < pe_row d"
      using here ds(3) by auto
    ultimately show ?thesis by blast
  qed
qed

lemma parseCSV_errors_sorted: "sorted_wrt (<) (map pe_row (pr_errors (parseCSV content)))"
proof (cases "validateCSVFormat content")
  case None
  obtain ds where "pr_errors (parseRows (map trim (parseCSVLine (hd (nonBlankLines content)))) 1
      (tl (nonBlankLines content)) \<lparr>pr_data = [], pr_errors = []\<rparr>) = [] @ ds"
    "sorted_wrt (<) (map pe_row ds)"
    using parseRows_errors [of "map trim (parseCSVLine (hd (nonBlankLines content)))" 1
      "tl (nonBlankLines content)" "\<lparr>pr_data = [], pr_errors = []\<rparr>"] by auto
  with None show ?thesis by (simp add: parseCSV_def Let_def)
next
  case (Some err)
  then show ?thesis by (simp add: parseCSV_def Let_def)
qed

lemma parserErrors_rows: "map re_row (parserErrors pr) = map pe_row (pr_errors pr)"
  by (simp add: parserErrors_def)

lemma insertRows_errors:
  "\<exists>db. errors (insertRows createMany st) = errors (fst st) @ db \<and> (\<forall>e \<in> set db. re_row e = 0)"
  by (cases st) (auto simp: insertRows_def split: option.splits)

lemma rowDelta_failure:
  "errors (fst (rowDelta J ownerId i r)) =
     (case rowFailure J r of
        None \<Rightarrow> []
      | Some es \<Rightarrow> [\<lparr>re_row = i + 2, re_errors = es, re_data = RowObject r\<rparr>])"
  by (simp add: rowDelta_def processRow_def rowFailure_def Let_def initialResult_def pushError_def
           split: sum.splits prod.splits)

lemma rowDelta_rowWarnings:
  "warnings (fst (rowDelta J ownerId i r)) = map (\<lambda>w. rowPrefix (i + 2) @ w) (rowWarnings J r)"
  by (simp add: rowDelta_def processRow_def rowWarnings_def Let_def initialResult_def pushError_def
        rowPrefix_def split: sum.splits prod.splits)

lemma rowDeltas_failures:
  "concat (map (\<lambda>d. errors (fst d)) (rowDeltas J ownerId i rs)) =
   concat (map (\<lambda>(i, r). case rowFailure J r of
                  None \<Rightarrow> []
                | Some es \<Rightarrow> [\<lparr>re_row = i + 2, re_errors = es, re_data = RowObject r\<rparr>])
             (enumerate i rs))"
  by (induction rs arbitrary: i) (simp_all add: rowDelta_failure)

lemma rowDeltas_rowWarnings:
  "concat (map (\<lambda>d. warnings (fst d)) (rowDeltas J ownerId i rs)) =
   concat (map (\<lambda>(i, r). map (\<lambda>w. rowPrefix (i + 2) @ w) (rowWarnings J r)) (enumerate i rs))"
  by (induction rs arbitrary: i) (simp_all add: rowDelta_rowWarnings)

lemma insertRows_insertError:
  "errors (insertRows createMany st) = errors (fst st) @ insertError createMany (snd st)"
  by (cases st) (simp add: insertRows_def insertError_def pushError_def split: option.splits)

lemma importParsed_errors:
  "errors (importParsed J createMany ownerId pr initialResult) =
     parserErrors pr @
     (if pr_data pr = [] then
        [\<lparr>re_row = 0, re_errors = [''No valid data rows found in CSV''], re_data = NoData\<rparr>]
      else if \<not> fst (validateRequiredHeaders (take MAX_ROWS (pr_data pr)) REQUIRED_HEADERS) then
        [\<lparr>re_row = 0,
          re_errors = [''Missing required headers: '' @
            join '', '' (snd (validateRequiredHeaders (take MAX_ROWS (pr_data pr)) REQUIRED_HEADERS))],
          re_data = NoData\<rparr>]
      else validationErrors J (take MAX_ROWS (pr_data pr)) @
           insertError createMany
             (case stageParsed J ownerId pr initialResult of Inl r \<Rightarrow> [] | Inr st \<Rightarrow> snd st))"
proof (cases rule: importParsed_cases [of J ownerId pr createMany])
  case (early r)
  from early(1) [unfolded stageParsed_Inl_iff] show ?thesis
    unfolding early(2) by (auto simp: initialResult_def)
next
  case (staged st)
  from staged(1) [unfolded stageParsed_Inr_iff] show ?thesis
    unfolding staged(2) using staged_result(4) [OF staged(1)]
    by (simp add: insertRows_insertError staged(1) validationErrors_def rowDeltas_failures)
qed

lemma stagedRows_valid:
  "fv_isValid (validateFile (Some f)) \<Longrightarrow> buffer_toString f = Inr content \<Longrightarrow>
   stagedRows J (Some f) ownerId =
     (case stageParsed J ownerId (parseCSV content) initialResult of Inl r \<Rightarrow> [] | Inr st \<Rightarrow> snd st)"
  by (simp add: stagedRows_def)

lemma validationErrors_sorted: "sorted_wrt (<) (map re_row (validationErrors J rows))"
  unfolding validationErrors_def
  using rowDeltas_errors_sorted [of J "[]" 0 rows] by (simp add: rowDeltas_failures)

lemma validationErrors_rows:
  "map re_row (validationErrors J rows) =
     map (\<lambda>i. i + 2) (filter (\<lambda>i. rowFailure J (rows ! i) \<noteq> None) [0 ..< length rows])"
proof -
  have "\<And>k. map re_row (concat (map (\<lambda>(i, r). case rowFailure J r of
                    None \<Rightarrow> []
                  | Some es \<Rightarrow> [\<lparr>re_row = i + 2, re_errors = es, re_data = RowObject r\<rparr>])
               (enumerate k rows))) =
     map (\<lambda>i. i + k + 2) (filter (\<lambda>i. rowFailure J (rows ! i) \<noteq> None) [0 ..< length rows])"
  proof (induction rows rule: rev_induct)
    case Nil
    show ?case by simp
  next
    case (snoc r rows)
    have same: "filter (\<lambda>i. rowFailure J ((rows @ [r]) ! i) \<noteq> None) [0 ..< length rows] =
        filter (\<lambda>i. rowFailure J (rows ! i) \<noteq> None) [0 ..< length rows]"
      by (rule filter_cong) (simp_all add: nth_append)
    show ?case
      unfolding enumerate_append_eq map_append concat_append snoc.IH
      using same by (cases "rowFailure J r") (simp_all add: add.commute)
  qed
  from this [of 0] show ?thesis by (simp add: validationErrors_def)
qed

text \<open>
  C6, as the code has it. The errors of the result of a valid, readable file are the diagnostics
  of the parser, in the order of their rows, and then: the one row-0 error of a file without
  data rows or without a required header, which ends the import before any row is processed;
  else the errors of the rows that are not imported, each under its row number (the row at
  index \<open>i\<close> of the processed rows is row \<open>i + 2\<close>) and in the order of the rows, then the row-0
  error of a failed insert of the staged rows, if any. The warnings are the warning of the cap,
  if any, then, when the rows are processed, the warnings of the rows in the order of the rows,
  each with its row number in front. So entries are ordered by row within the parser's
  diagnostics, within the validation errors and within the warnings, but every diagnostic of
  the parser precedes every validation error, whatever their rows.
\<close>

theorem import_order:
  assumes "fv_isValid (validateFile (Some f))" and "buffer_toString f = Inr content"
    and "pr = parseCSV content" and "rows = take MAX_ROWS (pr_data pr)"
  shows "\<exists>r. importBuyersFromCSV J createMany (Some f) ownerId = Inr r \<and>
     errors r = parserErrors pr @
       (if pr_data pr = [] then
          [\<lparr>re_row = 0, re_errors = [''No valid data rows found in CSV''], re_data = NoData\<rparr>]
        else if \<not> fst (validateRequiredHeaders rows REQUIRED_HEADERS) then
          [\<lparr>re_row = 0,
            re_errors = [''Missing required headers: '' @
              join '', '' (snd (validateRequiredHeaders rows REQUIRED_HEADERS))],
            re_data = NoData\<rparr>]
        else validationErrors J rows @ insertError createMany (stagedRows J (Some f) ownerId)) \<and>
     warnings r =
       (if MAX_ROWS < length (pr_data pr) then [capWarning (length (pr_data pr))] else []) @
       (if pr_data pr \<noteq> [] \<and> fst (validateRequiredHeaders rows REQUIRED_HEADERS)
        then rowWarningLines J rows else []) \<and>
     sorted_wrt (<) (map re_row (parserErrors pr)) \<and>
     sorted_wrt (<) (map re_row (validationErrors J rows)) \<and>
     map re_row (validationErrors J rows) =
       map (\<lambda>i. i + 2) (filter (\<lambda>i. rowFailure J (rows ! i) \<noteq> None) [0 ..< length rows])"
proof (intro exI conjI)
  let ?pr = "parseCSV content"
  show "importBuyersFromCSV J createMany (Some f) ownerId =
      Inr (importParsed J createMany ownerId ?pr initialResult)"
    by (rule import_valid [OF assms(1,2)])
  show "errors (importParsed J createMany ownerId ?pr initialResult) = parserErrors pr @
       (if pr_data pr = [] then
          [\<lparr>re_row = 0, re_errors = [''No valid data rows found in CSV''], re_data = NoData\<rparr>]
        else if \<not> fst (validateRequiredHeaders rows REQUIRED_HEADERS) then
          [\<lparr>re_row = 0,
            re_errors = [''Missing required headers: '' @
              join '', '' (snd (validateRequiredHeaders rows REQUIRED_HEADERS))],
            re_data = NoData\<rparr>]
        else validationErrors J rows @ insertError createMany (stagedRows J (Some f) ownerId))"
    unfolding assms(3,4) stagedRows_valid [OF assms(1,2)] by (rule importParsed_errors)
  show "warnings (importParsed J createMany ownerId ?pr initialResult) =
       (if MAX_ROWS < length (pr_data pr) then [capWarning (length (pr_data pr))] else []) @
       (if pr_data pr \<noteq> [] \<and> fst (validateRequiredHeaders rows REQUIRED_HEADERS)
        then rowWarningLines J rows else [])"
    unfolding assms(3,4) importParsed_warnings
    by (simp add: rowWarningLines_def rowDeltas_rowWarnings)
  show "sorted_wrt (<) (map re_row (parserErrors pr))"
    unfolding assms(3) parserErrors_rows by (rule parseCSV_errors_sorted)
  show "sorted_wrt (<) (map re_row (validationErrors J rows))"
    by (rule validationErrors_sorted)
  show "map re_row (validationErrors J rows) =
       map (\<lambda>i. i + 2) (filter (\<lambda>i. rowFailure J (rows ! i) \<noteq> None) [0 ..< length rows])"
    by (rule validationErrors_rows)
qed

section \<open>A parser diagnostic before a validation error\<close>

lemma extra_facts:
  "johnLine @ '',x'' \<noteq> []" "trim (johnLine @ '',x'') = johnLine @ '',x''"
  "\<not> isSpace (last (johnLine @ '',x''))" "CHR 0x0A \<notin> set (johnLine @ '',x'')"
  "parseCSVLine (johnLine @ '',x'') =
     [''John'', ''9876543210'', ''Chandigarh'', ''Apartment'', ''Buy'', ''ZeroToThree'', ''Website'', ''x'']"
  by (simp_all add: johnLine_def trim_def isSpace_iff parseCSVLine_def)

lemma x_not_space: "\<not> isSpace CHR ''x''"
  by (simp add: isSpace_iff)

lemma john_made:
  "makeRow [''fullName'', ''phone'', ''city'', ''propertyType'', ''purpose'', ''timeline'', ''source'']
     [''John'', ''9876543210'', ''Chandigarh'', ''Apartment'', ''Buy'', ''ZeroToThree'', ''Website'']
     Map.empty = johnRow"
  by (simp add: johnRow_def trim_def isSpace_iff)

lemma parse_extra:
  "pr_data (parseCSV extraColumnCsv) = [johnRow, johnRow, johnRow, johnRow, johnRow, johnRow] \<and>
   map pe_row (pr_errors (parseCSV extraColumnCsv)) = [7]"
proof -
  let ?H = "[''fullName'', ''phone'', ''city'', ''propertyType'', ''purpose'', ''timeline'', ''source'']"
  let ?ls = "[johnLine, johnLine, johnLine, johnLine, johnLine, johnLine @ '',x'']"
  have nb: "nonBlankLines (csvText requiredHeader ?ls) = requiredHeader # ?ls"
    by (intro nonBlankLines_csvText) (simp_all add: line_facts extra_facts(1-4) x_not_space)
  have "trim (csvText requiredHeader ?ls) \<noteq> []"
    using csvText_trimmed [of requiredHeader ?ls] by (simp add: line_facts extra_facts(1-4) x_not_space)
  then have "parseCSV extraColumnCsv =
      parseRows (map trim (parseCSVLine requiredHeader)) 1 ?ls \<lparr>pr_data = [], pr_errors = []\<rparr>"
    unfolding extraColumnCsv_def using nb
    by (intro parseCSV_lines) (simp_all add: line_facts requiredHeader_fields johnLine_fields)
  also have "\<dots> = parseRows ?H 1 ?ls \<lparr>pr_data = [], pr_errors = []\<rparr>"
    unfolding requiredHeader_fields header_trimmed ..
  finally have "parseCSV extraColumnCsv = parseRows ?H 1 ?ls \<lparr>pr_data = [], pr_errors = []\<rparr>" .
  then have "pr_data (parseCSV extraColumnCsv) =
       [makeRow ?H (parseCSVLine johnLine) Map.empty, makeRow ?H (parseCSVLine johnLine) Map.empty,
        makeRow ?H (parseCSVLine johnLine) Map.empty, makeRow ?H (parseCSVLine johnLine) Map.empty,
        makeRow ?H (parseCSVLine johnLine) Map.empty,
        makeRow ?H (take 7 (parseCSVLine (johnLine @ '',x''))) Map.empty] \<and>
     map pe_row (pr_errors (parseCSV extraColumnCsv)) = [7]"
    by (simp add: parseRows_Cons_ok parseRows_Cons_extra john_facts extra_facts
          del: parseRows.simps(2) makeRow.simps)
  then show ?thesis
    unfolding johnLine_fields extra_facts(5) by (simp add: john_made del: makeRow.simps)
qed


lemma extra_csv_size:
  "extraColumnCsv \<noteq> []" "length extraColumnCsv \<le> MAX_FILE_SIZE"
  by (simp_all add: extraColumnCsv_def csvText_def requiredHeader_def johnLine_def MAX_FILE_SIZE_def)

lemma import_extra_rows:
  "\<exists>r. importBuyersFromCSV J createMany (Some (csvFile extraColumnCsv)) ownerId = Inr r \<and>
       map re_row (errors r) = [7, 2, 3, 4, 5, 6, 7]"
proof -
  let ?pr = "parseCSV extraColumnCsv"
  have data: "pr_data ?pr = [johnRow, johnRow, johnRow, johnRow, johnRow, johnRow]"
    and diag: "map pe_row (pr_errors ?pr) = [7]"
    using parse_extra by simp_all
  have "stageParsed J ownerId ?pr initialResult =
      Inr (processRows J ownerId 0 (take MAX_ROWS (pr_data ?pr))
            (initialResult\<lparr>errors := parserErrors ?pr,
               warnings := (if MAX_ROWS < length (pr_data ?pr) then [capWarning (length (pr_data ?pr))] else []),
               totalRows := min MAX_ROWS (length (pr_data ?pr))\<rparr>, []))"
    unfolding stageParsed_Inr_iff by (simp add: data required_headers_present MAX_ROWS_def)
  then obtain st where st: "stageParsed J ownerId ?pr initialResult = Inr st" by blast
  have rows: "take MAX_ROWS (pr_data ?pr) = [johnRow, johnRow, johnRow, johnRow, johnRow, johnRow]"
    by (simp add: data MAX_ROWS_def)
  have staged: "snd st = []"
    unfolding staged_result(5) [OF st] rows by (simp add: john_delta)
  have errs: "map re_row (errors (fst st)) = [7, 2, 3, 4, 5, 6, 7]"
    unfolding staged_result(4) [OF st] rows
    by (simp add: john_delta parserErrors_rows diag initialResult_def)
  have "insertRows createMany st = fst st"
    using staged by (cases st) (simp add: insertRows_def)
  then have "map re_row (errors (importParsed J createMany ownerId ?pr initialResult)) = [7, 2, 3, 4, 5, 6, 7]"
    using errs by (simp add: importParsed_def st Let_def)
  then show ?thesis
    unfolding import_csvFile [OF extra_csv_size] by simp
qed

text \<open>The claim as it was stated fails on a file of six data rows whose last row has a column
  too many and whose rows all fail validation: the parser's diagnostic of row 7 comes before the
  validation errors of rows 2 to 7.\<close>

theorem import_order_counterexample:
  "\<forall>J createMany ownerId.
     (case importBuyersFromCSV J createMany (Some (csvFile extraColumnCsv)) ownerId of
        Inl e \<Rightarrow> []
      | Inr r \<Rightarrow> map re_row (errors r)) = [7, 2, 3, 4, 5, 6, 7]"
proof (intro allI)
  fix J createMany ownerId
  from import_extra_rows [of J createMany ownerId]
  obtain r where "importBuyersFromCSV J createMany (Some (csvFile extraColumnCsv)) ownerId = Inr r"
    "map re_row (errors r) = [7, 2, 3, 4, 5, 6, 7]"
    by (elim exE conjE)
  then show "(case importBuyersFromCSV J createMany (Some (csvFile extraColumnCsv)) ownerId of
        Inl e \<Rightarrow> []
      | Inr r \<Rightarrow> map re_row (errors r)) = [7, 2, 3, 4, 5, 6, 7]"
    by simp
qed

lemma john_failure:
  "rowFailure J johnRow =
     Some [''bhk is required for Apartment properties'',
           ''bhk: BHK is required for Apartment and Villa property types'']"
  "rowWarnings J johnRow = []"
  using rowDelta_failure [of J "[]" 0 johnRow] rowDelta_rowWarnings [of J "[]" 0 johnRow]
  by (cases "rowFailure J johnRow"; simp add: john_delta initialResult_def)+

lemma extra_staged:
  "stagedRows J (Some (csvFile extraColumnCsv)) ownerId = []"
proof -
  let ?pr = "parseCSV extraColumnCsv"
  have data: "pr_data ?pr = [johnRow, johnRow, johnRow, johnRow, johnRow, johnRow]"
    using parse_extra by simp
  show ?thesis
  proof (cases "stageParsed J ownerId ?pr initialResult")
    case (Inl r)
    then show ?thesis
      using stagedRows_valid [OF csvFile_valid [OF extra_csv_size], of extraColumnCsv J ownerId]
      by (simp add: csvFile_def)
  next
    case (Inr st)
    have "snd st = []"
      unfolding staged_result(5) [OF Inr] data by (simp add: MAX_ROWS_def john_delta)
    then show ?thesis
      using stagedRows_valid [OF csvFile_valid [OF extra_csv_size], of extraColumnCsv J ownerId] Inr
      by (simp add: csvFile_def)
  qed
qed

theorem import_order_witness:
  "\<forall>J createMany ownerId.
     fv_isValid (validateFile (Some (csvFile extraColumnCsv))) \<and>
     buffer_toString (csvFile extraColumnCsv) = Inr extraColumnCsv \<and>
     take MAX_ROWS (pr_data (parseCSV extraColumnCsv)) =
       [johnRow, johnRow, johnRow, johnRow, johnRow, johnRow] \<and>
     (\<exists>r. importBuyersFromCSV J createMany (Some (csvFile extraColumnCsv)) ownerId = Inr r \<and>
        errors r = parserErrors (parseCSV extraColumnCsv) @
          validationErrors J [johnRow, johnRow, johnRow, johnRow, johnRow, johnRow] \<and>
        map re_row (parserErrors (parseCSV extraColumnCsv)) = [7] \<and>
        map re_row (validationErrors J [johnRow, johnRow, johnRow, johnRow, johnRow, johnRow]) =
          [2, 3, 4, 5, 6, 7] \<and>
        warnings r = [])"
proof (intro allI conjI)
  fix J createMany ownerId
  let ?rows = "[johnRow, johnRow, johnRow, johnRow, johnRow, johnRow]"
  show valid: "fv_isValid (validateFile (Some (csvFile extraColumnCsv)))"
    by (rule csvFile_valid [OF extra_csv_size])
  show buf: "buffer_toString (csvFile extraColumnCsv) = Inr extraColumnCsv"
    by (simp add: csvFile_def)
  have data: "pr_data (parseCSV extraColumnCsv) = ?rows"
    using parse_extra by simp
  show rows: "take MAX_ROWS (pr_data (parseCSV extraColumnCsv)) = ?rows"
    by (simp add: data MAX_ROWS_def)
  have diag: "map re_row (parserErrors (parseCSV extraColumnCsv)) = [7]"
    using parse_extra by (simp add: parserErrors_rows)
  have small: "\<not> MAX_ROWS < length (pr_data (parseCSV extraColumnCsv))" "pr_data (parseCSV extraColumnCsv) \<noteq> []"
    by (simp_all add: data MAX_ROWS_def)
  have ws: "rowWarningLines J ?rows = []"
    by (simp add: rowWarningLines_def john_failure)
  have vs: "map re_row (validationErrors J ?rows) = [2, 3, 4, 5, 6, 7]"
    by (simp add: validationErrors_def john_failure)
  have hdr: "fst (validateRequiredHeaders ?rows REQUIRED_HEADERS)"
    by (rule required_headers_present(1))
  have none: "insertError createMany [] = []"
    by (simp add: insertError_def)
  from import_order [OF valid buf refl rows [symmetric], of J createMany ownerId]
  obtain r where r: "importBuyersFromCSV J createMany (Some (csvFile extraColumnCsv)) ownerId = Inr r"
    and "errors r = parserErrors (parseCSV extraColumnCsv) @
       (if pr_data (parseCSV extraColumnCsv) = [] then
          [\<lparr>re_row = 0, re_errors = [''No valid data rows found in CSV''], re_data = NoData\<rparr>]
        else if \<not> fst (validateRequiredHeaders ?rows REQUIRED_HEADERS) then
          [\<lparr>re_row = 0,
            re_errors = [''Missing required headers: '' @
              join '', '' (snd (validateRequiredHeaders ?rows REQUIRED_HEADERS))],
            re_data = NoData\<rparr>]
        else validationErrors J ?rows @
             insertError createMany (stagedRows J (Some (csvFile extraColumnCsv)) ownerId))"
    and "warnings r =
       (if MAX_ROWS < length (pr_data (parseCSV extraColumnCsv))
        then [capWarning (length (pr_data (parseCSV extraColumnCsv)))] else []) @
       (if pr_data (parseCSV extraColumnCsv) \<noteq> [] \<and> fst (validateRequiredHeaders ?rows REQUIRED_HEADERS)
        then rowWarningLines J ?rows else [])"
    by (elim exE conjE)
  then have "errors r = parserErrors (parseCSV extraColumnCsv) @ validationErrors J ?rows"
    and "warnings r = []"
    unfolding extra_staged none using small hdr ws by simp_all
  with r diag vs
  show "\<exists>r. importBuyersFromCSV J createMany (Some (csvFile extraColumnCsv)) ownerId = Inr r \<and>
        errors r = parserErrors (parseCSV extraColumnCsv) @ validationErrors J ?rows \<and>
        map re_row (parserErrors (parseCSV extraColumnCsv)) = [7] \<and>
        map re_row (validationErrors J ?rows) = [2, 3, 4, 5, 6, 7] \<and>
        warnings r = []"
    by (intro exI [of _ r] conjI)
qed

section \<open>Cleaning a cleaned row\<close>

lemma dropWhile_ends:
  "dropWhile P xs = [] \<or> (\<not> P (hd (dropWhile P xs)) \<and> last (dropWhile P xs) = last xs)"
  by (induction xs) auto

lemma trim_ends: "trim s = [] \<or> (\<not> isSpace (hd (trim s)) \<and> \<not> isSpace (last (trim s)))"
proof -
  let ?a = "dropWhile isSpace s"
  let ?b = "dropWhile isSpace (rev ?a)"
  show ?thesis
  proof (cases "?b = []")
    case True
    then show ?thesis by (simp add: trim_def)
  next
    case False
    then have b: "\<not> isSpace (hd ?b)" "last ?b = last (rev ?a)"
      using dropWhile_ends [of isSpace "rev ?a"] by auto
    have a: "?a \<noteq> []"
    proof
      assume "?a = []"
      then have "?b = []" by (simp only: rev.simps(1) dropWhile.simps(1))
      with False show False ..
    qed
    then have "\<not> isSpace (hd ?a)" using dropWhile_ends [of isSpace s] by auto
    moreover have "last (rev ?a) = hd ?a" using a by (simp add: last_rev)
    ultimately show ?thesis using b False by (simp add: trim_def hd_rev last_rev)
  qed
qed

lemma trim_Nil: "trim [] = []"
  by (simp add: trim_def)

lemma trim_idem: "trim (trim s) = trim s"
proof (cases "trim s = []")
  case True
  then show ?thesis by (simp add: trim_Nil)
next
  case False
  then show ?thesis using trim_ends [of s] by (simp add: trim_id)
qed

lemma trim_no_space: "\<forall>c \<in> set s. \<not> isSpace c \<Longrightarrow> trim s = s"
proof (cases "s = []")
  case True
  then show ?thesis by (simp add: trim_Nil)
next
  case False
  assume "\<forall>c \<in> set s. \<not> isSpace c"
  with False have "\<not> isSpace (hd s)" "\<not> isSpace (last s)" by simp_all
  with False show ?thesis by (simp add: trim_id)
qed

lemma isSpace_lower: "isSpace (toLowerChar c) = isSpace c"
  by (auto simp: toLowerChar_def isSpace_iff split: option.splits if_splits)

lemma lower_idem: "toLowerChar (toLowerChar c) = toLowerChar c"
  by (auto simp: toLowerChar_def split: option.splits if_splits)

lemma dropWhile_lower:
  "dropWhile isSpace (map toLowerChar xs) = map toLowerChar (dropWhile isSpace xs)"
  by (induction xs) (simp_all add: isSpace_lower)

lemma trim_lower: "trim (toLowerCase s) = toLowerCase (trim s)"
  by (simp add: trim_def toLowerCase_def dropWhile_lower rev_map)

lemma toLowerCase_idem: "toLowerCase (toLowerCase s) = toLowerCase s"
  by (simp add: toLowerCase_def lower_idem)

lemma cleanEmail_idem: "trim (toLowerCase (trim (toLowerCase s))) = trim (toLowerCase s)"
  by (simp add: trim_lower trim_idem toLowerCase_idem)

lemma digit_not_space: "isDigit c \<Longrightarrow> \<not> isSpace c"
  by (auto simp: isDigit_def isSpace_iff)

lemma filter_drop_filter: "filter P (drop n (filter P xs)) = drop n (filter P xs)"
  by (auto simp: filter_id_conv dest: in_set_dropD)

lemma cleanPhone_idem:
  "cleanPhoneNumber (VStr s) = Inr p \<Longrightarrow> cleanPhoneNumber (VStr p) = Inr p"
  by (auto simp: cleanPhoneNumber_def Let_def filter_drop_filter split: if_splits)

lemma cleanPhone_digits: "cleanPhoneNumber (VStr s) = Inr p \<Longrightarrow> \<forall>c \<in> set p. isDigit c"
  by (auto simp: cleanPhoneNumber_def Let_def split: if_splits dest: in_set_dropD)


end
